theory Spec2Isabelle
  imports
    Complex_Main
    "HOL-Library.Char_ord"
    "HOL-Library.List_Lexorder"
    "HOL-Library.Product_Lexorder"
begin

section \<open>Calendar-aligned series and chart composition (covidsimulation/plot.py)\<close>

text \<open>
  A shallow embedding of \<^verbatim>\<open>src/covidsimulation/plot.py\<close>.

  \<^item> A \<^verbatim>\<open>datetime.date\<close> is its proleptic ordinal, an \<open>int\<close>; the difference of two
    dates in days is the difference of the ordinals and \<^verbatim>\<open>d + timedelta(days=i)\<close> is
    \<open>d + i\<close>. (The bounds \<^verbatim>\<open>date.min\<close> and \<^verbatim>\<open>date.max\<close> of the Python type
    are not modelled.)
  \<^item> A naive \<^verbatim>\<open>datetime.datetime\<close> is a pair of its date and the microsecond of the
    day; pairs are ordered lexicographically, as Python orders naive datetimes.
  \<^item> The numeric values of a series are carried, never computed with; they are modelled
    as \<open>real\<close>.
  \<^item> Every exception of the source is a value of \<open>error\<close>; a function that can raise
    returns \<open>error + 'a\<close>, with \<open>Inl\<close> for the exception.
\<close>

subsection \<open>Data\<close>

type_synonym date = int

type_synonym datetime = "date \<times> nat"

datatype error =
    ValueError string
  | AssertionError
  | TypeError
  | IndexError
  | AttributeError
  | ParseError

text \<open>
  The x-sequence handed to the constructor. Its elements may be dates, naive datetimes or
  ISO strings (the three kinds \<^verbatim>\<open>make_date_sequence\<close> distinguishes). The model covers the
  homogeneous sequences; \<^verbatim>\<open>sorted\<close> raises on a sequence of two or more elements of mixed
  kinds, which the type leaves out.
\<close>

datatype x_seq =
    XDates "date list"
  | XDateTimes "datetime list"
  | XStrs "string list"

text \<open>The \<^verbatim>\<open>start_date\<close> argument: a string or a date (\<^verbatim>\<open>None\<close> is the option).\<close>

datatype start_arg = SStr string | SDate date

text \<open>
  The value buffer \<^verbatim>\<open>y\<close>: a numpy array or another sequence (the constructor tests
  \<^verbatim>\<open>isinstance(y, np.ndarray)\<close>).
\<close>

datatype y_arg = NdArray "real list" | PyList "real list"

text \<open>
  The object state of \<^verbatim>\<open>Series\<close>: \<open>series_ux\<close> is the attribute \<^verbatim>\<open>_x\<close> (dates),
  \<open>series_x\<close> is \<^verbatim>\<open>x\<close> (the same days as datetimes) and \<open>series_y\<close> is \<^verbatim>\<open>y\<close>.
\<close>

record series =
  series_ux :: "date list"
  series_x :: "datetime list"
  series_y :: "real list"

subsection \<open>Collaborators outside the repository's core\<close>

text \<open>
  Modelled from the spec: \<^verbatim>\<open>get_date_from_isoformat\<close> of \<^verbatim>\<open>covidsimulation/utils.py\<close>
  is not part of the sources at hand. The spec describes it as the date-parsing
  collaborator: "given an ISO-8601 date string, returns a calendar date", and "failure on
  malformed input propagates as a ParseError". It is a parameter \<open>parse\<close> of type
  \<open>string \<Rightarrow> date option\<close> of every function that calls it; \<open>None\<close> is the failure,
  raised as \<open>ParseError\<close> by \<open>get_date_from_isoformat\<close> below. The method
  \<^verbatim>\<open>datetime.isoformat\<close> of the standard library is the parameter \<open>isofmt\<close>.
\<close>

definition get_date_from_isoformat :: "(string \<Rightarrow> date option) \<Rightarrow> string \<Rightarrow> error + date" where
  "get_date_from_isoformat parse s = (case parse s of None \<Rightarrow> Inl ParseError | Some d \<Rightarrow> Inr d)"

subsection \<open>Helpers of the module\<close>

text \<open>\<^verbatim>\<open>to_datetime\<close>: midnight of the day.\<close>

definition to_datetime :: "date \<Rightarrow> datetime" where
  "to_datetime d = (d, 0)"

text \<open>
  The loop of \<^verbatim>\<open>make_date_sequence\<close> over string elements, after the conversion of a
  datetime to its ISO string: the first element that does not parse raises.
\<close>

fun parse_all :: "(string \<Rightarrow> date option) \<Rightarrow> string list \<Rightarrow> error + date list" where
  "parse_all parse [] = Inr []"
| "parse_all parse (s # ss) =
     (case get_date_from_isoformat parse s of
        Inl e \<Rightarrow> Inl e
      | Inr d \<Rightarrow> (case parse_all parse ss of Inl e \<Rightarrow> Inl e | Inr ds \<Rightarrow> Inr (d # ds)))"

fun make_date_sequence ::
  "(string \<Rightarrow> date option) \<Rightarrow> (datetime \<Rightarrow> string) \<Rightarrow> x_seq \<Rightarrow> error + date list" where
  "make_date_sequence parse isofmt (XDates ds) = Inr ds"
| "make_date_sequence parse isofmt (XDateTimes ts) = parse_all parse (map isofmt ts)"
| "make_date_sequence parse isofmt (XStrs ss) = parse_all parse ss"

text \<open>The test \<^verbatim>\<open>list(x) == sorted(list(x))\<close> of the constructor.\<close>

fun is_sorted_seq :: "x_seq \<Rightarrow> bool" where
  "is_sorted_seq (XDates ds) = (ds = sort ds)"
| "is_sorted_seq (XDateTimes ts) = (ts = sort ts)"
| "is_sorted_seq (XStrs ss) = (ss = sort ss)"

text \<open>
  \<^verbatim>\<open>map_x_to_y\<close>: the dictionary from the x-sequence to the values, a later pair
  overwriting an earlier one with the same key. The keys looked up later are dates, so
  the dictionary is a map on dates: a key that is a string or a datetime never equals a
  date, and such a sequence gives a dictionary in which no date is found. On \<^verbatim>\<open>None\<close>
  the call \<^verbatim>\<open>len(x)\<close> raises \<^verbatim>\<open>TypeError\<close>.
\<close>

definition x_seq_len :: "x_seq \<Rightarrow> nat" where
  "x_seq_len xs = (case xs of XDates ds \<Rightarrow> length ds | XDateTimes ts \<Rightarrow> length ts
                   | XStrs ss \<Rightarrow> length ss)"

definition map_x_to_y :: "x_seq option \<Rightarrow> real list \<Rightarrow> error + (date \<rightharpoonup> real)" where
  "map_x_to_y x y =
     (case x of
        None \<Rightarrow> Inl TypeError
      | Some xs \<Rightarrow>
          if x_seq_len xs \<noteq> length y then Inl AssertionError
          else (case xs of
                  XDates ds \<Rightarrow> Inr (fold (\<lambda>(xi, yi) m. m(xi \<mapsto> yi)) (zip ds y) Map.empty)
                | _ \<Rightarrow> Inr Map.empty))"

text \<open>
  The densification loop of the constructor:
  \<^verbatim>\<open>for day in self._x: last = x_to_y.get(day, last); new_y.append(last)\<close>.
\<close>

fun forward_fill :: "(date \<rightharpoonup> real) \<Rightarrow> real \<Rightarrow> date list \<Rightarrow> real list" where
  "forward_fill x_to_y lst [] = []"
| "forward_fill x_to_y lst (day # days) =
     (let lst' = (case x_to_y day of None \<Rightarrow> lst | Some v \<Rightarrow> v)
      in lst' # forward_fill x_to_y lst' days)"

subsection \<open>The constructor of Series\<close>

definition y_values :: "y_arg \<Rightarrow> real list" where
  "y_values y = (case y of NdArray vs \<Rightarrow> vs | PyList vs \<Rightarrow> vs)"

text \<open>Python's truth value of \<^verbatim>\<open>start_date\<close>: \<^verbatim>\<open>None\<close> and the empty string are false.\<close>

definition truthy_start :: "start_arg option \<Rightarrow> bool" where
  "truthy_start sd = (case sd of None \<Rightarrow> False | Some (SStr s) \<Rightarrow> s \<noteq> [] | Some (SDate d) \<Rightarrow> True)"

text \<open>\<^verbatim>\<open>[start_date + timedelta(days=i) for i in range(num_elements)]\<close>\<close>

definition date_range :: "date \<Rightarrow> int \<Rightarrow> date list" where
  "date_range start_date num_elements = map (\<lambda>i. start_date + int i) [0..<nat num_elements]"

text \<open>
  Lines 41 to 54 of the constructor, after \<^verbatim>\<open>start_date\<close> and \<^verbatim>\<open>num_elements\<close> are
  known: the dense dates, the densification where the dates are more than the values,
  and the copy of the values (\<^verbatim>\<open>deepcopy\<close> of an array, \<^verbatim>\<open>np.array\<close> of anything else:
  both give an array of the same elements).
\<close>

definition Series_fill :: "date \<Rightarrow> int \<Rightarrow> x_seq option \<Rightarrow> y_arg \<Rightarrow> error + series" where
  "Series_fill start_date num_elements x y =
     (let ux = date_range start_date num_elements in
      if num_elements > int (length (y_values y)) then
        (case map_x_to_y x (y_values y) of
           Inl e \<Rightarrow> Inl e
         | Inr x_to_y \<Rightarrow>
             Inr \<lparr>series_ux = ux, series_x = map to_datetime ux,
                  series_y = forward_fill x_to_y 0 ux\<rparr>)
      else
        Inr \<lparr>series_ux = ux, series_x = map to_datetime ux,
             series_y = (case y of NdArray vs \<Rightarrow> vs | PyList vs \<Rightarrow> vs)\<rparr>)"

text \<open>
  \<^verbatim>\<open>Series.__init__(y, x, start_date)\<close>. With a false \<^verbatim>\<open>start_date\<close> and no x,
  \<^verbatim>\<open>list(x)\<close> raises \<^verbatim>\<open>TypeError\<close>; on an empty x-sequence \<^verbatim>\<open>x[0]\<close> raises
  \<^verbatim>\<open>IndexError\<close>.
\<close>

definition Series_init ::
  "(string \<Rightarrow> date option) \<Rightarrow> (datetime \<Rightarrow> string) \<Rightarrow>
   y_arg \<Rightarrow> x_seq option \<Rightarrow> start_arg option \<Rightarrow> error + series" where
  "Series_init parse isofmt y x start_date =
     (if x = None \<and> start_date = None then
        Inl (ValueError ''Either x or start_date must be specified'')
      else if \<not> truthy_start start_date then
        (case x of
           None \<Rightarrow> Inl TypeError
         | Some xs \<Rightarrow>
             if \<not> is_sorted_seq xs then Inl AssertionError
             else
               (case make_date_sequence parse isofmt xs of
                  Inl e \<Rightarrow> Inl e
                | Inr ds \<Rightarrow>
                    (case ds of
                       [] \<Rightarrow> Inl IndexError
                     | d0 # _ \<Rightarrow> Series_fill d0 (last ds - d0 + 1) (Some (XDates ds)) y)))
      else
        (case (case start_date of
                 Some (SStr s) \<Rightarrow> get_date_from_isoformat parse s
               | Some (SDate d) \<Rightarrow> Inr d
               | None \<Rightarrow> Inl TypeError) of
           Inl e \<Rightarrow> Inl e
         | Inr d \<Rightarrow> Series_fill d (int (length (y_values y))) x y))"

subsection \<open>Indexing, length and trimming\<close>

text \<open>
  An index argument of \<^verbatim>\<open>get_index\<close>, \<^verbatim>\<open>__getitem__\<close> and \<^verbatim>\<open>trim\<close>: a raw integer, a
  string or a date.
\<close>

datatype index_arg = IInt int | IStr string | IDate date

text \<open>\<^verbatim>\<open>Series.__len__\<close>: the number of values.\<close>

definition Series_len :: "series \<Rightarrow> int" where
  "Series_len s = int (length (series_y s))"

text \<open>
  The date branch of \<^verbatim>\<open>get_index\<close>:
  \<^verbatim>\<open>min(max((x_value - self.start_date).days, 0), len(self._x) - 1)\<close>, where the property
  \<^verbatim>\<open>start_date\<close> reads \<^verbatim>\<open>self._x[0]\<close> and raises \<^verbatim>\<open>IndexError\<close> on a series without dates.
\<close>

definition clamp_date :: "series \<Rightarrow> date \<Rightarrow> error + int" where
  "clamp_date s d =
     (case series_ux s of
        [] \<Rightarrow> Inl IndexError
      | d0 # _ \<Rightarrow> Inr (min (max (d - d0) 0) (int (length (series_ux s)) - 1)))"

text \<open>
  \<^verbatim>\<open>Series.get_index\<close>: a string is parsed to a date, a date is clamped, and anything else
  (an integer) is returned as it is.
\<close>

definition get_index :: "(string \<Rightarrow> date option) \<Rightarrow> series \<Rightarrow> index_arg \<Rightarrow> error + int" where
  "get_index parse s x_value =
     (case x_value of
        IInt i \<Rightarrow> Inr i
      | IStr str \<Rightarrow>
          (case get_date_from_isoformat parse str of Inl e \<Rightarrow> Inl e | Inr d \<Rightarrow> clamp_date s d)
      | IDate d \<Rightarrow> clamp_date s d)"

text \<open>Python's \<^verbatim>\<open>xs[i]\<close>: a negative index counts from the end, out of range raises.\<close>

definition py_index :: "'a list \<Rightarrow> int \<Rightarrow> error + 'a" where
  "py_index xs i =
     (if 0 \<le> i \<and> i < int (length xs) then Inr (xs ! nat i)
      else if i < 0 \<and> - int (length xs) \<le> i then Inr (xs ! nat (int (length xs) + i))
      else Inl IndexError)"

text \<open>
  Python's \<^verbatim>\<open>xs[a:b]\<close> with integer bounds: a negative bound counts from the end, and both
  bounds are cut to the length.
\<close>

definition slice_bound :: "nat \<Rightarrow> int \<Rightarrow> nat" where
  "slice_bound n i = (if i < 0 then nat (max (i + int n) 0) else min (nat i) n)"

definition py_slice :: "'a list \<Rightarrow> int \<Rightarrow> int \<Rightarrow> 'a list" where
  "py_slice xs a b =
     (let lo = slice_bound (length xs) a; hi = slice_bound (length xs) b
      in take (hi - lo) (drop lo xs))"

text \<open>\<^verbatim>\<open>Series.__getitem__\<close>\<close>

definition Series_getitem :: "(string \<Rightarrow> date option) \<Rightarrow> series \<Rightarrow> index_arg \<Rightarrow> error + real" where
  "Series_getitem parse s item =
     (case get_index parse s item of Inl e \<Rightarrow> Inl e | Inr i \<Rightarrow> py_index (series_y s) i)"

text \<open>\<^verbatim>\<open>Series.tolist\<close>\<close>

definition tolist :: "series \<Rightarrow> real list" where
  "tolist s = series_y s"

text \<open>\<^verbatim>\<open>get_stop_index(series, stop)\<close>\<close>

definition get_stop_index ::
  "(string \<Rightarrow> date option) \<Rightarrow> series \<Rightarrow> index_arg option \<Rightarrow> error + int" where
  "get_stop_index parse s stop =
     (case (case stop of
              Some v \<Rightarrow> (case get_index parse s v of Inl e \<Rightarrow> Inl e | Inr i \<Rightarrow> Inr (i + 1))
            | None \<Rightarrow> Inr (Series_len s)) of
        Inl e \<Rightarrow> Inl e
      | Inr stop_index \<Rightarrow> Inr (min stop_index (Series_len s)))"

text \<open>\<^verbatim>\<open>start or 0\<close>: \<^verbatim>\<open>None\<close>, the integer 0 and the empty string are false.\<close>

definition start_or_0 :: "index_arg option \<Rightarrow> index_arg" where
  "start_or_0 start =
     (case start of
        None \<Rightarrow> IInt 0
      | Some (IInt i) \<Rightarrow> (if i = 0 then IInt 0 else IInt i)
      | Some (IStr str) \<Rightarrow> (if str = [] then IInt 0 else IStr str)
      | Some (IDate d) \<Rightarrow> IDate d)"

text \<open>
  \<^verbatim>\<open>Series.trim\<close>: the slices of \<^verbatim>\<open>y\<close> and \<^verbatim>\<open>_x\<close> are numpy arrays, handed to the
  constructor with no \<^verbatim>\<open>start_date\<close>.
\<close>

definition trim ::
  "(string \<Rightarrow> date option) \<Rightarrow> (datetime \<Rightarrow> string) \<Rightarrow>
   series \<Rightarrow> index_arg option \<Rightarrow> index_arg option \<Rightarrow> error + series" where
  "trim parse isofmt s start stop =
     (case get_index parse s (start_or_0 start) of
        Inl e \<Rightarrow> Inl e
      | Inr start_index \<Rightarrow>
          (case get_stop_index parse s stop of
             Inl e \<Rightarrow> Inl e
           | Inr stop_index \<Rightarrow>
               Series_init parse isofmt
                 (NdArray (py_slice (series_y s) start_index stop_index))
                 (Some (XDates (py_slice (series_ux s) start_index stop_index)))
                 None))"

subsection \<open>Traces and the figure\<close>

definition PLOT_COLORS :: "(string \<times> string) list" where
  "PLOT_COLORS =
     [(''rgba(0,0,255,1)'', ''rgba(0,0,255,0.25)''),
      (''rgba(255,0,0,1)'', ''rgba(255,0,0,0.25)''),
      (''rgba(0,0,0,1)'', ''rgba(0,0,0,0.25)''),
      (''rgba(128,0,240,1)'', ''rgba(128,0,240,0.25)''),
      (''rgba(240,128,0,1)'', ''rgba(240,128,0,0.25)''),
      (''rgba(0,128,240,1)'', ''rgba(0,128,240,0.25)''),
      (''rgba(0,255,0,1)'', ''rgba(0,255,0,0.25)'')]"

text \<open>
  The two \<^verbatim>\<open>go.Scatter\<close> traces the module adds: a line (\<open>x\<close>, \<open>y\<close>, \<open>line_color\<close>, \<open>name\<close>)
  and a filled region (\<open>x\<close>, \<open>y\<close>, \<open>fillcolor\<close>, \<open>line_color\<close>, \<open>showlegend\<close>, \<open>name\<close>, with
  \<^verbatim>\<open>fill='toself'\<close>).
\<close>

datatype trace =
    Line "datetime list" "real list" string string
  | Fill "datetime list" "real list" string string bool "string option"

fun is_line :: "trace \<Rightarrow> bool" where
  "is_line (Line tx ty c n) = True"
| "is_line (Fill tx ty fc lc sl n) = False"

fun is_fill :: "trace \<Rightarrow> bool" where
  "is_fill (Line tx ty c n) = False"
| "is_fill (Fill tx ty fc lc sl n) = True"

text \<open>
  The figure: its traces in the order \<^verbatim>\<open>add_trace\<close> received them, and the layout
  settings \<^verbatim>\<open>plot\<close> makes.
\<close>

record figure =
  fig_traces :: "trace list"
  fig_title :: "string option"
  fig_yaxis_range :: "(real \<times> real) option"
  fig_yaxis_log :: bool
  fig_width :: "int option"
  fig_showlegend :: "bool option"

definition empty_figure :: figure where
  "empty_figure = \<lparr>fig_traces = [], fig_title = None, fig_yaxis_range = None,
                     fig_yaxis_log = False, fig_width = None, fig_showlegend = None\<rparr>"

definition add_trace :: "figure \<Rightarrow> trace \<Rightarrow> figure" where
  "add_trace fig t = fig\<lparr>fig_traces := fig_traces fig @ [t]\<rparr>"

text \<open>\<^verbatim>\<open>plot_line\<close>\<close>

definition plot_line :: "figure \<Rightarrow> series \<Rightarrow> string \<Rightarrow> int \<Rightarrow> error + figure" where
  "plot_line fig s pop_name color_index =
     (case py_index PLOT_COLORS color_index of
        Inl e \<Rightarrow> Inl e
      | Inr c \<Rightarrow> Inr (add_trace fig (Line (series_x s) (series_y s) (fst c) pop_name)))"

text \<open>
  \<^verbatim>\<open>concat_seq\<close> on numpy arrays, which the attributes of a series always are:
  \<^verbatim>\<open>np.stack([s1, s2])\<close> raises \<^verbatim>\<open>ValueError\<close> unless the two have the same shape, and
  the reshape of the stack is the first array followed by the second.
\<close>

definition concat_seq :: "'a list \<Rightarrow> 'a list \<Rightarrow> error + 'a list" where
  "concat_seq s1 s2 =
     (if length s1 \<noteq> length s2 then
        Inl (ValueError ''all input arrays must have the same shape'')
      else Inr (s1 @ s2))"

text \<open>
  \<^verbatim>\<open>plot_confidence_range\<close>: the assertion, then the arguments of \<^verbatim>\<open>go.Scatter\<close> in
  the order they are written.
\<close>

definition plot_confidence_range ::
  "figure \<Rightarrow> series \<Rightarrow> series \<Rightarrow> string option \<Rightarrow> int \<Rightarrow> error + figure" where
  "plot_confidence_range fig series_low series_high legend color_index =
     (if length (series_x series_low) \<noteq> length (series_x series_high) then Inl AssertionError
      else
        (case concat_seq (series_x series_high) (rev (series_x series_low)) of
           Inl e \<Rightarrow> Inl e
         | Inr tx \<Rightarrow>
             (case concat_seq (series_y series_high) (rev (series_y series_low)) of
                Inl e \<Rightarrow> Inl e
              | Inr ty \<Rightarrow>
                  (case py_index PLOT_COLORS color_index of
                     Inl e \<Rightarrow> Inl e
                   | Inr c \<Rightarrow>
                       Inr (add_trace fig
                              (Fill tx ty (snd c) (snd c) (legend \<noteq> None) legend))))))"

subsection \<open>plot\<close>

text \<open>
  A plot item's data: a bare series or a sequence of series. The deferred calls
  (\<^verbatim>\<open>functools.partial\<close>) are a datatype: their arguments are evaluated when the partial
  is built, in the loop, and the call itself happens after the loop.
\<close>

datatype plot_data = Bare series | Coll "series list"

datatype draw_fn =
    PlotLine series string int
  | PlotConfidenceRange series series "string option" int

record plot_options =
  opt_log_scale :: bool
  opt_size :: "int option"
  opt_stop :: "index_arg option"
  opt_start :: "index_arg option"
  opt_ymax :: "real option"
  opt_cindex :: "int option"
  opt_show_confidence_interval :: bool

text \<open>
  \<^verbatim>\<open>data[k]\<close>: on a sequence its element, a series; on a bare series
  \<^verbatim>\<open>Series.__getitem__\<close>, a number.
\<close>

datatype item_elem = ESeries series | ENumber real

definition data_getitem ::
  "(string \<Rightarrow> date option) \<Rightarrow> plot_data \<Rightarrow> int \<Rightarrow> error + item_elem" where
  "data_getitem parse data k =
     (case data of
        Bare s \<Rightarrow>
          (case Series_getitem parse s (IInt k) of Inl e \<Rightarrow> Inl e | Inr v \<Rightarrow> Inr (ENumber v))
      | Coll ss \<Rightarrow> (case py_index ss k of Inl e \<Rightarrow> Inl e | Inr s \<Rightarrow> Inr (ESeries s)))"

text \<open>
  \<^verbatim>\<open>data[k].trim(start, stop)\<close>: a number has no attribute \<^verbatim>\<open>trim\<close>.
\<close>

definition data_trim ::
  "(string \<Rightarrow> date option) \<Rightarrow> (datetime \<Rightarrow> string) \<Rightarrow> plot_options \<Rightarrow>
   plot_data \<Rightarrow> int \<Rightarrow> error + series" where
  "data_trim parse isofmt opts data k =
     (case data_getitem parse data k of
        Inl e \<Rightarrow> Inl e
      | Inr (ENumber v) \<Rightarrow> Inl AttributeError
      | Inr (ESeries s) \<Rightarrow> trim parse isofmt s (opt_start opts) (opt_stop opts))"

definition is_Series :: "plot_data \<Rightarrow> bool" where
  "is_Series data = (case data of Bare s \<Rightarrow> True | Coll ss \<Rightarrow> False)"

definition data_len :: "plot_data \<Rightarrow> int" where
  "data_len data = (case data of Bare s \<Rightarrow> Series_len s | Coll ss \<Rightarrow> int (length ss))"

text \<open>
  The body of the loop of \<^verbatim>\<open>plot\<close> for the item at position \<open>i\<close>: the partials it appends
  to \<^verbatim>\<open>area_fns\<close> and to \<^verbatim>\<open>line_fns\<close>.
\<close>

definition plot_item ::
  "(string \<Rightarrow> date option) \<Rightarrow> (datetime \<Rightarrow> string) \<Rightarrow> plot_options \<Rightarrow>
   nat \<Rightarrow> plot_data \<times> string \<Rightarrow> error + (draw_fn list \<times> draw_fn list)" where
  "plot_item parse isofmt opts i item =
     (let data = fst item; pop_name = snd item;
          color_index = (case opt_cindex opts of
                           None \<Rightarrow> int i mod int (length PLOT_COLORS)
                         | Some c \<Rightarrow> c)
      in
      if is_Series data \<or> data_len data = 1 then
        (case data_trim parse isofmt opts data 0 of
           Inl e \<Rightarrow> Inl e
         | Inr s0 \<Rightarrow> Inr ([], [PlotLine s0 pop_name color_index]))
      else if data_len data = 3 then
        (if opt_show_confidence_interval opts then
           (case data_trim parse isofmt opts data 1 of
              Inl e \<Rightarrow> Inl e
            | Inr s1 \<Rightarrow>
                (case data_trim parse isofmt opts data 2 of
                   Inl e \<Rightarrow> Inl e
                 | Inr s2 \<Rightarrow>
                     (case data_trim parse isofmt opts data 0 of
                        Inl e \<Rightarrow> Inl e
                      | Inr s0 \<Rightarrow>
                          Inr ([PlotConfidenceRange s1 s2 None color_index],
                               [PlotLine s0 pop_name color_index]))))
         else
           (case data_trim parse isofmt opts data 0 of
              Inl e \<Rightarrow> Inl e
            | Inr s0 \<Rightarrow> Inr ([], [PlotLine s0 pop_name color_index])))
      else if data_len data = 2 then
        (case data_trim parse isofmt opts data 0 of
           Inl e \<Rightarrow> Inl e
         | Inr s0 \<Rightarrow>
             (case data_trim parse isofmt opts data 1 of
                Inl e \<Rightarrow> Inl e
              | Inr s1 \<Rightarrow> Inr ([PlotConfidenceRange s0 s1 (Some pop_name) color_index], [])))
      else Inl (ValueError ''Invalid number of elements to plot''))"

text \<open>The loop over \<^verbatim>\<open>enumerate(pop_stats_name_tuples)\<close>, from position \<open>i\<close> on.\<close>

fun plot_loop ::
  "(string \<Rightarrow> date option) \<Rightarrow> (datetime \<Rightarrow> string) \<Rightarrow> plot_options \<Rightarrow>
   nat \<Rightarrow> (plot_data \<times> string) list \<Rightarrow> draw_fn list \<Rightarrow> draw_fn list \<Rightarrow>
   error + (draw_fn list \<times> draw_fn list)" where
  "plot_loop parse isofmt opts i [] area_fns line_fns = Inr (area_fns, line_fns)"
| "plot_loop parse isofmt opts i (item # items) area_fns line_fns =
     (case plot_item parse isofmt opts i item of
        Inl e \<Rightarrow> Inl e
      | Inr (new_areas, new_lines) \<Rightarrow>
          plot_loop parse isofmt opts (Suc i) items (area_fns @ new_areas) (line_fns @ new_lines))"

text \<open>Calling a partial, and the two loops that call them in order.\<close>

fun call_fn :: "figure \<Rightarrow> draw_fn \<Rightarrow> error + figure" where
  "call_fn fig (PlotLine s pop_name color_index) = plot_line fig s pop_name color_index"
| "call_fn fig (PlotConfidenceRange lo hi legend color_index) =
     plot_confidence_range fig lo hi legend color_index"

fun call_fns :: "figure \<Rightarrow> draw_fn list \<Rightarrow> error + figure" where
  "call_fns fig [] = Inr fig"
| "call_fns fig (f # fs) =
     (case call_fn fig f of Inl e \<Rightarrow> Inl e | Inr fig' \<Rightarrow> call_fns fig' fs)"

text \<open>
  The kind of trace a partial is expected to draw: \<^verbatim>\<open>plot_line\<close> a line,
  \<^verbatim>\<open>plot_confidence_range\<close> a filled region. (A predicate of the proofs, not a function of
  the module.)
\<close>

definition draws_kind :: "draw_fn \<Rightarrow> trace \<Rightarrow> bool" where
  "draws_kind f t = (case f of PlotLine s n c \<Rightarrow> is_line t
                     | PlotConfidenceRange lo hi legend c \<Rightarrow> is_fill t)"

text \<open>
  The layout settings at the end of \<^verbatim>\<open>plot\<close>; \<^verbatim>\<open>if ymax\<close> and \<^verbatim>\<open>if size\<close> are false on
  \<^verbatim>\<open>None\<close> and on zero.
\<close>

definition finish_layout :: "figure \<Rightarrow> string \<Rightarrow> plot_options \<Rightarrow> nat \<Rightarrow> figure" where
  "finish_layout fig title_text opts n_items =
     (let fig1 = fig\<lparr>fig_title := Some title_text\<rparr>;
          fig2 = (case opt_ymax opts of
                    None \<Rightarrow> fig1
                  | Some ymax \<Rightarrow>
                      if ymax = 0 then fig1
                      else fig1\<lparr>fig_yaxis_range :=
                                  Some (if opt_log_scale opts then 1 else 0, ymax)\<rparr>);
          fig3 = (if opt_log_scale opts then fig2\<lparr>fig_yaxis_log := True\<rparr> else fig2);
          fig4 = (case opt_size opts of
                    None \<Rightarrow> fig3
                  | Some w \<Rightarrow> if w = 0 then fig3 else fig3\<lparr>fig_width := Some w\<rparr>)
      in if n_items = 1 then fig4\<lparr>fig_showlegend := Some False\<rparr> else fig4)"

text \<open>\<^verbatim>\<open>plot\<close>\<close>

definition plot ::
  "(string \<Rightarrow> date option) \<Rightarrow> (datetime \<Rightarrow> string) \<Rightarrow>
   (plot_data \<times> string) list \<Rightarrow> string \<Rightarrow> plot_options \<Rightarrow> error + figure" where
  "plot parse isofmt pop_stats_name_tuples title_text opts =
     (case plot_loop parse isofmt opts 0 pop_stats_name_tuples [] [] of
        Inl e \<Rightarrow> Inl e
      | Inr (area_fns, line_fns) \<Rightarrow>
          (case call_fns empty_figure area_fns of
             Inl e \<Rightarrow> Inl e
           | Inr fig1 \<Rightarrow>
               (case call_fns fig1 line_fns of
                  Inl e \<Rightarrow> Inl e
                | Inr fig2 \<Rightarrow>
                    Inr (finish_layout fig2 title_text opts (length pop_stats_name_tuples)))))"

text \<open>The default options of \<^verbatim>\<open>plot\<close>.\<close>

definition default_options :: plot_options where
  "default_options =
     \<lparr>opt_log_scale = False, opt_size = None, opt_stop = None, opt_start = None,
      opt_ymax = None, opt_cindex = None, opt_show_confidence_interval = True\<rparr>"

subsection \<open>Arrays by reference\<close>

text \<open>
  A numpy array is a mutable object, and a slice \<^verbatim>\<open>a[lo:hi]\<close> of an array is a view on
  the buffer of \<^verbatim>\<open>a\<close>. To state what a series shares with the arrays it was built from,
  the buffers live in a store, a list of buffers in which an address is a position; an
  array object is a view: the address of its buffer, where the view starts and how many
  elements it has. The functions above compute with the contents; the functions below
  say in which buffers the contents live.
\<close>

datatype buffer = FloatBuf "real list" | DateBuf "date list" | DateTimeBuf "datetime list"

type_synonym store = "buffer list"

record ndarray =
  arr_buf :: nat
  arr_start :: nat
  arr_count :: nat

definition view_of :: "'a list \<Rightarrow> ndarray \<Rightarrow> 'a list" where
  "view_of vs a = take (arr_count a) (drop (arr_start a) vs)"

definition load_floats :: "store \<Rightarrow> ndarray \<Rightarrow> real list" where
  "load_floats h a = (case h ! arr_buf a of FloatBuf vs \<Rightarrow> view_of vs a | _ \<Rightarrow> [])"

definition load_dates :: "store \<Rightarrow> ndarray \<Rightarrow> date list" where
  "load_dates h a = (case h ! arr_buf a of DateBuf ds \<Rightarrow> view_of ds a | _ \<Rightarrow> [])"

definition load_datetimes :: "store \<Rightarrow> ndarray \<Rightarrow> datetime list" where
  "load_datetimes h a = (case h ! arr_buf a of DateTimeBuf ts \<Rightarrow> view_of ts a | _ \<Rightarrow> [])"

text \<open>
  A new array (\<^verbatim>\<open>np.array\<close> of a list, \<^verbatim>\<open>deepcopy\<close> of an array): a new buffer at the
  end of the store, viewed whole.
\<close>

definition buffer_len :: "buffer \<Rightarrow> nat" where
  "buffer_len b = (case b of FloatBuf vs \<Rightarrow> length vs | DateBuf ds \<Rightarrow> length ds
                   | DateTimeBuf ts \<Rightarrow> length ts)"

definition new_array :: "store \<Rightarrow> buffer \<Rightarrow> ndarray \<times> store" where
  "new_array h b = (\<lparr>arr_buf = length h, arr_start = 0, arr_count = buffer_len b\<rparr>, h @ [b])"

text \<open>The slice \<^verbatim>\<open>a[lo:hi]\<close> of an array: a view on the same buffer.\<close>

definition slice_view :: "ndarray \<Rightarrow> int \<Rightarrow> int \<Rightarrow> ndarray" where
  "slice_view a lo hi =
     (let l = slice_bound (arr_count a) lo; u = slice_bound (arr_count a) hi
      in \<lparr>arr_buf = arr_buf a, arr_start = arr_start a + l, arr_count = u - l\<rparr>)"

text \<open>
  A write through an array object, \<^verbatim>\<open>a[i] = v\<close>: it changes the buffer the view is on.
\<close>

definition array_write :: "store \<Rightarrow> ndarray \<Rightarrow> nat \<Rightarrow> real \<Rightarrow> store" where
  "array_write h a i v =
     (case h ! arr_buf a of
        FloatBuf vs \<Rightarrow>
          (if i < arr_count a then h[arr_buf a := FloatBuf (vs[arr_start a + i := v])] else h)
      | _ \<Rightarrow> h)"

text \<open>
  The series object: its three attributes are arrays. \<open>series_of\<close> reads the object's
  state out of the store.
\<close>

record series_obj =
  obj_ux :: ndarray
  obj_x :: ndarray
  obj_y :: ndarray

definition series_of :: "store \<Rightarrow> series_obj \<Rightarrow> series" where
  "series_of h obj =
     \<lparr>series_ux = load_dates h (obj_ux obj), series_x = load_datetimes h (obj_x obj),
      series_y = load_floats h (obj_y obj)\<rparr>"

text \<open>
  The arguments of the constructor by reference: \<^verbatim>\<open>y\<close> is an array object or a sequence
  given by its elements, \<^verbatim>\<open>x\<close> is an array of dates or a sequence.
\<close>

datatype y_ref = YArr ndarray | YSeq "real list"

datatype x_ref = XArr ndarray | XSeq x_seq

definition load_y :: "store \<Rightarrow> y_ref \<Rightarrow> y_arg" where
  "load_y h y = (case y of YArr a \<Rightarrow> NdArray (load_floats h a) | YSeq vs \<Rightarrow> PyList vs)"

definition load_x :: "store \<Rightarrow> x_ref \<Rightarrow> x_seq" where
  "load_x h x = (case x of XArr a \<Rightarrow> XDates (load_dates h a) | XSeq xs \<Rightarrow> xs)"

text \<open>
  The constructor on the store. It reads its arguments and writes to none of them; each
  attribute is assigned an array built there: \<^verbatim>\<open>self._x = np.array([...])\<close> (line 41),
  \<^verbatim>\<open>self.x = np.array([...])\<close> (line 50) and \<^verbatim>\<open>self.y = deepcopy(y)\<close> or
  \<^verbatim>\<open>np.array(y)\<close> (lines 52 and 54), in this order.
\<close>

definition Series_new ::
  "(string \<Rightarrow> date option) \<Rightarrow> (datetime \<Rightarrow> string) \<Rightarrow> store \<Rightarrow>
   y_ref \<Rightarrow> x_ref option \<Rightarrow> start_arg option \<Rightarrow> error + (series_obj \<times> store)" where
  "Series_new parse isofmt h y x start_date =
     (case Series_init parse isofmt (load_y h y) (map_option (load_x h) x) start_date of
        Inl e \<Rightarrow> Inl e
      | Inr s \<Rightarrow>
          (let (ux, h1) = new_array h (DateBuf (series_ux s));
               (xa, h2) = new_array h1 (DateTimeBuf (series_x s));
               (ya, h3) = new_array h2 (FloatBuf (series_y s))
           in Inr (\<lparr>obj_ux = ux, obj_x = xa, obj_y = ya\<rparr>, h3)))"

text \<open>
  \<^verbatim>\<open>Series.trim\<close> on the store: the two slices are views on the buffers of \<^verbatim>\<open>self\<close>,
  handed to the constructor.
\<close>

definition trim_obj ::
  "(string \<Rightarrow> date option) \<Rightarrow> (datetime \<Rightarrow> string) \<Rightarrow> store \<Rightarrow>
   series_obj \<Rightarrow> index_arg option \<Rightarrow> index_arg option \<Rightarrow> error + (series_obj \<times> store)" where
  "trim_obj parse isofmt h obj start stop =
     (case get_index parse (series_of h obj) (start_or_0 start) of
        Inl e \<Rightarrow> Inl e
      | Inr start_index \<Rightarrow>
          (case get_stop_index parse (series_of h obj) stop of
             Inl e \<Rightarrow> Inl e
           | Inr stop_index \<Rightarrow>
               Series_new parse isofmt h
                 (YArr (slice_view (obj_y obj) start_index stop_index))
                 (Some (XArr (slice_view (obj_ux obj) start_index stop_index)))
                 None))"

text \<open>An array object of the store: its buffer exists and holds the whole view.\<close>

definition valid_array :: "store \<Rightarrow> ndarray \<Rightarrow> bool" where
  "valid_array h a =
     (arr_buf a < length h \<and> arr_start a + arr_count a \<le> buffer_len (h ! arr_buf a))"

definition valid_obj :: "store \<Rightarrow> series_obj \<Rightarrow> bool" where
  "valid_obj h obj =
     (valid_array h (obj_ux obj) \<and> valid_array h (obj_x obj) \<and> valid_array h (obj_y obj))"

subsection \<open>Sample inputs\<close>

text \<open>
  A parser and an ISO formatter on which the theorems are run at concrete inputs: they
  know the first of March 2020, whose ordinal is 737485.
\<close>

definition sample_parse :: "string \<Rightarrow> date option" where
  "sample_parse str = (if str = ''2020-03-01'' then Some 737485 else None)"

definition sample_isoformat :: "datetime \<Rightarrow> string" where
  "sample_isoformat t = (if t = (737485, 0) then ''2020-03-01T00:00:00'' else [])"

text \<open>Three days from the first of March 2020, with the values 1, 2, 3.\<close>

definition sample_series :: series where
  "sample_series =
     \<lparr>series_ux = [737485, 737486, 737487],
      series_x = [(737485, 0), (737486, 0), (737487, 0)],
      series_y = [1, 2, 3]\<rparr>"

text \<open>An upper bound on the same three days, and a series of two days.\<close>

definition sample_high :: series where
  "sample_high =
     \<lparr>series_ux = [737485, 737486, 737487],
      series_x = [(737485, 0), (737486, 0), (737487, 0)],
      series_y = [4, 5, 6]\<rparr>"

definition sample_short :: series where
  "sample_short =
     \<lparr>series_ux = [737485, 737486],
      series_x = [(737485, 0), (737486, 0)],
      series_y = [8, 9]\<rparr>"

text \<open>
  Three days with five values: what the constructor returns for three consecutive dates
  and five values, since it densifies only where the dates are more than the values.
\<close>

definition sample_wide :: series where
  "sample_wide =
     \<lparr>series_ux = [737485, 737486, 737487],
      series_x = [(737485, 0), (737486, 0), (737487, 0)],
      series_y = [1, 2, 3, 4, 5]\<rparr>"

text \<open>
  The items of the spec's draw order example: a line only, then a triple with a band.
\<close>

definition sample_items :: "(plot_data \<times> string) list" where
  "sample_items =
     [(Coll [sample_series], ''A''), (Coll [sample_short, sample_series, sample_high], ''B'')]"

text \<open>
  A store with the caller's array of three values; the store and the object after the
  constructor ran on it; the store and the object after \<^verbatim>\<open>trim(1)\<close> of that object.
\<close>

definition sample_store :: store where
  "sample_store = [FloatBuf [1, 2, 3]]"

definition sample_array :: ndarray where
  "sample_array = \<lparr>arr_buf = 0, arr_start = 0, arr_count = 3\<rparr>"

definition sample_obj :: series_obj where
  "sample_obj =
     \<lparr>obj_ux = \<lparr>arr_buf = 1, arr_start = 0, arr_count = 3\<rparr>,
      obj_x = \<lparr>arr_buf = 2, arr_start = 0, arr_count = 3\<rparr>,
      obj_y = \<lparr>arr_buf = 3, arr_start = 0, arr_count = 3\<rparr>\<rparr>"

definition sample_store1 :: store where
  "sample_store1 =
     [FloatBuf [1, 2, 3],
      DateBuf [737485, 737486, 737487],
      DateTimeBuf [(737485, 0), (737486, 0), (737487, 0)],
      FloatBuf [1, 2, 3]]"

definition sample_trimmed :: series_obj where
  "sample_trimmed =
     \<lparr>obj_ux = \<lparr>arr_buf = 4, arr_start = 0, arr_count = 2\<rparr>,
      obj_x = \<lparr>arr_buf = 5, arr_start = 0, arr_count = 2\<rparr>,
      obj_y = \<lparr>arr_buf = 6, arr_start = 0, arr_count = 2\<rparr>\<rparr>"

definition sample_store2 :: store where
  "sample_store2 =
     [FloatBuf [1, 2, 3],
      DateBuf [737485, 737486, 737487],
      DateTimeBuf [(737485, 0), (737486, 0), (737487, 0)],
      FloatBuf [1, 2, 3],
      DateBuf [737486, 737487],
      DateTimeBuf [(737486, 0), (737487, 0)],
      FloatBuf [2, 3]]"

section \<open>Properties\<close>

subsection \<open>Construction: what raises\<close>

lemma parse_all_not_ValueError: "parse_all parse ss \<noteq> Inl (ValueError msg)"
  by (induction ss) (auto simp: get_date_from_isoformat_def split: option.splits sum.splits)

lemma make_date_sequence_not_ValueError:
  "make_date_sequence parse isofmt xs \<noteq> Inl (ValueError msg)"
  by (cases xs) (simp_all add: parse_all_not_ValueError)

lemma Series_fill_not_ValueError: "Series_fill d n x y \<noteq> Inl (ValueError msg)"
  by (auto simp: Series_fill_def Let_def map_x_to_y_def split: option.splits sum.splits x_seq.splits)

text \<open>
  C6. Constructing a series with neither an x-sequence nor a start date raises the
  \<^verbatim>\<open>ValueError\<close> of line 30 (the spec's ConfigurationError); with at least one of the two
  given, the constructor raises no \<^verbatim>\<open>ValueError\<close> at all, whatever else it does.
\<close>

theorem Series_init_requires_x_or_start_date:
  "Series_init parse isofmt y None None =
     Inl (ValueError ''Either x or start_date must be specified'')
   \<and> (x \<noteq> None \<or> start_date \<noteq> None \<longrightarrow>
        (\<forall>msg. Series_init parse isofmt y x start_date \<noteq> Inl (ValueError msg)))"
proof
  show "Series_init parse isofmt y None None =
          Inl (ValueError ''Either x or start_date must be specified'')"
    by (simp add: Series_init_def)
next
  show "x \<noteq> None \<or> start_date \<noteq> None \<longrightarrow>
        (\<forall>msg. Series_init parse isofmt y x start_date \<noteq> Inl (ValueError msg))"
  proof (intro impI allI)
    fix msg
    assume given: "x \<noteq> None \<or> start_date \<noteq> None"
    show "Series_init parse isofmt y x start_date \<noteq> Inl (ValueError msg)"
    proof (cases "truthy_start start_date")
      case True
      then show ?thesis using given
        by (auto simp: Series_init_def Series_fill_not_ValueError get_date_from_isoformat_def
            split: option.splits start_arg.splits sum.splits)
    next
      case False
      then show ?thesis using given
        by (auto simp: Series_init_def Series_fill_not_ValueError
            make_date_sequence_not_ValueError
            split: option.splits sum.splits list.splits)
    qed
  qed
qed

theorem Series_init_requires_x_or_start_date_witness:
  "Series_init sample_parse sample_isoformat (PyList [1, 2]) None None =
     Inl (ValueError ''Either x or start_date must be specified'')
   \<and> Series_init sample_parse sample_isoformat (PyList [1, 2]) None (Some (SDate 737485)) \<noteq>
       Inl (ValueError ''Either x or start_date must be specified'')
   \<and> Series_init sample_parse sample_isoformat (PyList [1, 2]) (Some (XDates [5, 6])) None \<noteq>
       Inl (ValueError ''Either x or start_date must be specified'')"
  using Series_init_requires_x_or_start_date
          [of sample_parse sample_isoformat "PyList [1, 2]" None "Some (SDate 737485)"]
        Series_init_requires_x_or_start_date
          [of sample_parse sample_isoformat "PyList [1, 2]" "Some (XDates [5, 6])" None]
  by simp

lemma sort_fixpoint_iff: "(xs = sort xs) = sorted xs"
  by (metis sorted_sort sorted_sort_id)

lemma unsorted_pair:
  assumes "i < j" and "j < length ds" and "ds ! j < ds ! i"
  shows "\<not> sorted (ds :: int list)"
proof
  assume "sorted ds"
  then have "ds ! i \<le> ds ! j"
    using assms(1,2) by (simp add: sorted_nth_mono)
  with assms(3) show False by simp
qed

text \<open>
  C8. With an explicit sequence of dates and no start date, the constructor requires the
  dates in ascending order: a sequence that is not sorted, and so any sequence in which
  some date is strictly earlier than one before it, raises the \<^verbatim>\<open>AssertionError\<close> of
  line 32 (the spec's InvariantError), whatever the values are.
\<close>

theorem unsorted_dates_rejected:
  "(\<not> sorted ds \<longrightarrow> Series_init parse isofmt y (Some (XDates ds)) None = Inl AssertionError)
   \<and> ((\<exists>i j. i < j \<and> j < length ds \<and> ds ! j < ds ! i) \<longrightarrow>
        Series_init parse isofmt y (Some (XDates ds)) None = Inl AssertionError)"
proof -
  have a: "Series_init parse isofmt y (Some (XDates ds)) None = Inl AssertionError"
    if "\<not> sorted ds"
    using that by (simp add: Series_init_def truthy_start_def sort_fixpoint_iff)
  show ?thesis using a unsorted_pair by blast
qed

theorem unsorted_dates_rejected_witness:
  "\<not> sorted [10, 12, 11 :: int]
   \<and> (1::nat) < 2 \<and> 2 < length [10, 12, 11 :: int] \<and> [10, 12, 11 :: int] ! 2 < [10, 12, 11] ! 1
   \<and> Series_init sample_parse sample_isoformat (PyList [1, 2, 3]) (Some (XDates [10, 12, 11])) None =
       Inl AssertionError"
proof -
  have h: "\<exists>i j. i < j \<and> j < length [10, 12, 11 :: int] \<and> [10, 12, 11 :: int] ! j < [10, 12, 11] ! i"
    by (rule exI [of _ 1], rule exI [of _ 2]) simp
  show ?thesis
    using h unsorted_dates_rejected [of "[10, 12, 11]" sample_parse sample_isoformat "PyList [1, 2, 3]"]
    by simp
qed

subsection \<open>Construction from a start date\<close>

lemma Series_fill_dense:
  "Series_fill d (int (length (y_values y))) x y =
     Inr \<lparr>series_ux = date_range d (int (length (y_values y))),
          series_x = map to_datetime (date_range d (int (length (y_values y)))),
          series_y = y_values y\<rparr>"
  by (simp add: Series_fill_def Let_def y_values_def split: y_arg.splits)

text \<open>
  C10. With an x-sequence and a true start date (a date, or a non-empty string that
  parses), the x-sequence is ignored: the series has one date per value, consecutive from
  the start date, and the values as given. The x-sequence is arbitrary here (any kind,
  sorted or not), and the result is the one the constructor gives with no x-sequence.
\<close>

theorem start_date_overrides_x:
  assumes "start_date = Some (SDate d) \<or>
           (start_date = Some (SStr str) \<and> str \<noteq> [] \<and> parse str = Some d)"
  shows "Series_init parse isofmt y (Some x) start_date =
           Inr \<lparr>series_ux = map (\<lambda>i. d + int i) [0..<length (y_values y)],
                series_x = map (\<lambda>i. to_datetime (d + int i)) [0..<length (y_values y)],
                series_y = y_values y\<rparr>
         \<and> Series_init parse isofmt y (Some x) start_date =
             Series_init parse isofmt y None start_date"
  using assms
  by (auto simp: Series_init_def truthy_start_def get_date_from_isoformat_def Series_fill_dense
      date_range_def comp_def)

theorem start_date_overrides_x_witness:
  "Series_init sample_parse sample_isoformat (PyList [1, 2, 3]) (Some (XDates [9, 3, 5]))
       (Some (SDate 100)) =
     Inr \<lparr>series_ux = [100, 101, 102], series_x = [(100, 0), (101, 0), (102, 0)],
          series_y = [1, 2, 3]\<rparr>
   \<and> Series_init sample_parse sample_isoformat (NdArray [4, 5]) (Some (XStrs [''zzz'']))
       (Some (SStr ''2020-03-01'')) =
     Inr \<lparr>series_ux = [737485, 737486], series_x = [(737485, 0), (737486, 0)],
          series_y = [4, 5]\<rparr>"
  using start_date_overrides_x
          [of "Some (SDate 100)" 100 "[]" sample_parse sample_isoformat
              "PyList [1, 2, 3]" "XDates [9, 3, 5]"]
        start_date_overrides_x
          [of "Some (SStr ''2020-03-01'')" 737485 "''2020-03-01''" sample_parse sample_isoformat
              "NdArray [4, 5]" "XStrs [''zzz'']"]
  by (simp add: sample_parse_def y_values_def to_datetime_def upt_conv_Cons)

subsection \<open>Construction from sparse dates\<close>


lemma strict_gap:
  "sorted_wrt (<) (ds :: int list) \<Longrightarrow> i \<le> j \<Longrightarrow> j < length ds \<Longrightarrow> ds ! i + int (j - i) \<le> ds ! j"
proof (induction j)
  case 0
  then show ?case by simp
next
  case (Suc j)
  show ?case
  proof (cases "i = Suc j")
    case True
    then show ?thesis by simp
  next
    case False
    with Suc.prems have ij: "i \<le> j" and jl: "j < length ds" by simp_all
    have "ds ! j < ds ! Suc j"
      using Suc.prems(1,3) by (simp add: sorted_wrt_nth_less)
    moreover have "ds ! i + int (j - i) \<le> ds ! j"
      using Suc.IH [OF Suc.prems(1) ij jl] .
    ultimately show ?thesis using ij by (simp add: Suc_diff_le)
  qed
qed

lemma forward_fill_length: "length (forward_fill m l days) = length days"
  by (induction days arbitrary: l) (simp_all add: Let_def)

lemma forward_fill_default:
  "k < length days \<Longrightarrow> (\<forall>i\<le>k. m (days ! i) = None) \<Longrightarrow> forward_fill m l days ! k = l"
proof (induction days arbitrary: l k)
  case Nil
  then show ?case by simp
next
  case (Cons d days)
  have d: "m d = None" using Cons.prems(2) by (auto dest: spec [of _ 0])
  show ?case
  proof (cases k)
    case 0
    then show ?thesis using d by (simp add: Let_def)
  next
    case (Suc k')
    have "forward_fill m l days ! k' = l"
    proof (rule Cons.IH)
      show "k' < length days" using Cons.prems(1) Suc by simp
      show "\<forall>i\<le>k'. m (days ! i) = None"
        using Cons.prems(2) Suc by (auto dest: spec [of _ "Suc i" for i])
    qed
    then show ?thesis using d Suc by (simp add: Let_def)
  qed
qed

lemma forward_fill_latest:
  "k < length days \<Longrightarrow> j \<le> k \<Longrightarrow> m (days ! j) = Some v \<Longrightarrow>
   (\<forall>i. j < i \<and> i \<le> k \<longrightarrow> m (days ! i) = None) \<Longrightarrow> forward_fill m l days ! k = v"
proof (induction days arbitrary: l k j)
  case Nil
  then show ?case by simp
next
  case (Cons d days)
  show ?case
  proof (cases k)
    case 0
    then show ?thesis using Cons.prems by (simp add: Let_def)
  next
    case (Suc k')
    show ?thesis
    proof (cases j)
      case 0
      then have d: "m d = Some v" using Cons.prems(3) by simp
      have "forward_fill m v days ! k' = v"
      proof (rule forward_fill_default)
        show "k' < length days" using Cons.prems(1) Suc by simp
        show "\<forall>i\<le>k'. m (days ! i) = None"
        proof (intro allI impI)
          fix i assume "i \<le> k'"
          then have "j < Suc i \<and> Suc i \<le> k" using 0 Suc by simp
          then have "m ((d # days) ! Suc i) = None" using Cons.prems(4) by blast
          then show "m (days ! i) = None" by simp
        qed
      qed
      then show ?thesis using d Suc by (simp add: Let_def)
    next
      case (Suc j')
      have "forward_fill m l' days ! k' = v" for l'
      proof (rule Cons.IH [of k' j'])
        show "k' < length days" using Cons.prems(1) \<open>k = Suc k'\<close> by simp
        show "j' \<le> k'" using Cons.prems(2) Suc \<open>k = Suc k'\<close> by simp
        show "m (days ! j') = Some v" using Cons.prems(3) Suc by simp
        show "\<forall>i. j' < i \<and> i \<le> k' \<longrightarrow> m (days ! i) = None"
        proof (intro allI impI)
          fix i assume "j' < i \<and> i \<le> k'"
          then have "j < Suc i \<and> Suc i \<le> k" using Suc \<open>k = Suc k'\<close> by simp
          then have "m ((d # days) ! Suc i) = None" using Cons.prems(4) by blast
          then show "m (days ! i) = None" by simp
        qed
      qed
      then show ?thesis using \<open>k = Suc k'\<close> by (simp add: Let_def)
    qed
  qed
qed

lemma x_to_y_miss:
  "d \<notin> set ds \<Longrightarrow> fold (\<lambda>(xi, yi) m. m(xi \<mapsto> yi)) (zip ds vs) m0 d = m0 d"
proof (induction ds arbitrary: vs m0)
  case Nil
  then show ?case by simp
next
  case (Cons a ds)
  then show ?case by (cases vs) simp_all
qed

lemma x_to_y_hit:
  "distinct ds \<Longrightarrow> length ds = length vs \<Longrightarrow> i < length ds \<Longrightarrow>
   fold (\<lambda>(xi, yi) m. m(xi \<mapsto> yi)) (zip ds vs) m0 (ds ! i) = Some (vs ! i)"
proof (induction ds arbitrary: vs m0 i)
  case Nil
  then show ?case by simp
next
  case (Cons a ds)
  then obtain b vs' where vs: "vs = b # vs'" by (cases vs) auto
  show ?case
  proof (cases i)
    case 0
    have "a \<notin> set ds" using Cons.prems(1) by simp
    then have "fold (\<lambda>(xi, yi) m. m(xi \<mapsto> yi)) (zip ds vs') (m0(a \<mapsto> b)) a = (m0(a \<mapsto> b)) a"
      by (rule x_to_y_miss)
    also have "\<dots> = Some b" by simp
    finally show ?thesis using 0 vs by (simp del: fun_upd_apply)
  next
    case (Suc i')
    then show ?thesis using Cons vs by simp
  qed
qed

lemma date_range_length: "length (date_range d n) = nat n"
  by (simp add: date_range_def)

lemma date_range_nth: "k < nat n \<Longrightarrow> date_range d n ! k = d + int k"
  by (simp add: date_range_def)

lemma Series_init_sparse:
  assumes sorted: "sorted_wrt (<) ds" and ne: "ds \<noteq> []" and len: "length (y_values y) = length ds"
  shows "\<exists>s. Series_init parse isofmt y (Some (XDates ds)) None = Inr s
           \<and> series_ux s = date_range (hd ds) (last ds - hd ds + 1)
           \<and> series_x s = map to_datetime (series_ux s)
           \<and> length (series_y s) = nat (last ds - hd ds + 1)
           \<and> (\<forall>k i. k < nat (last ds - hd ds + 1) \<and> i < length ds \<and> ds ! i \<le> hd ds + int k
                 \<and> (\<forall>j<length ds. ds ! j \<le> hd ds + int k \<longrightarrow> ds ! j \<le> ds ! i)
               \<longrightarrow> series_y s ! k = y_values y ! i)"
proof -
  define d0 where "d0 = hd ds"
  define n where "n = last ds - d0 + 1"
  define vs where "vs = y_values y"
  obtain ds' where ds: "ds = d0 # ds'" using ne d0_def by (cases ds) auto
  have srt: "sorted ds" and dist: "distinct ds"
    using sorted by (simp_all add: strict_sorted_iff)
  have hd0: "ds ! 0 = d0" using ds by simp
  have lastn: "last ds = ds ! (length ds - 1)" using ne by (simp add: last_conv_nth)
  have lower: "d0 + int i \<le> ds ! i" if "i < length ds" for i
    using strict_gap [OF sorted, of 0 i] that hd0 by simp
  have upper: "ds ! i + int (length ds - 1 - i) \<le> last ds" if "i < length ds" for i
    using strict_gap [OF sorted, of i "length ds - 1"] that lastn by simp
  have n_ge: "int (length ds) \<le> n"
    using lower [of "length ds - 1"] ne lastn by (simp add: n_def)
  have chk: "is_sorted_seq (XDates (d0 # ds'))"
    unfolding is_sorted_seq.simps sort_fixpoint_iff using srt ds by simp
  have init: "Series_init parse isofmt y (Some (XDates ds)) None = Series_fill d0 n (Some (XDates ds)) y"
    using chk by (simp add: Series_init_def truthy_start_def ds n_def del: is_sorted_seq.simps)
  show ?thesis
  proof (cases "n > int (length vs)")
    case True
    define m where "m = fold (\<lambda>(xi, yi) m. m(xi \<mapsto> yi)) (zip ds vs) Map.empty"
    define s where "s = \<lparr>series_ux = date_range d0 n, series_x = map to_datetime (date_range d0 n),
                         series_y = forward_fill m 0 (date_range d0 n)\<rparr>"
    have fill: "Series_fill d0 n (Some (XDates ds)) y = Inr s"
      using True len by (simp add: Series_fill_def Let_def map_x_to_y_def x_seq_len_def vs_def m_def s_def)
    have vals: "series_y s ! k = vs ! i"
      if k: "k < nat n" and i: "i < length ds" and le: "ds ! i \<le> d0 + int k"
        and mx: "\<forall>j<length ds. ds ! j \<le> d0 + int k \<longrightarrow> ds ! j \<le> ds ! i" for k i
    proof -
      define j where "j = nat (ds ! i - d0)"
      have j0: "d0 + int j = ds ! i" using lower [OF i] by (simp add: j_def)
      have jk: "j \<le> k" using le j0 by simp
      have kl: "k < length (date_range d0 n)" using k by (simp add: date_range_length)
      have hit: "m (date_range d0 n ! j) = Some (vs ! i)"
        using x_to_y_hit [OF dist _ i, of vs Map.empty] len jk k j0
        by (simp add: date_range_nth m_def vs_def)
      have miss: "\<forall>t. j < t \<and> t \<le> k \<longrightarrow> m (date_range d0 n ! t) = None"
      proof (intro allI impI)
        fix t assume t: "j < t \<and> t \<le> k"
        have "d0 + int t \<notin> set ds"
        proof
          assume "d0 + int t \<in> set ds"
          then obtain j' where j': "j' < length ds" "ds ! j' = d0 + int t"
            by (auto simp: in_set_conv_nth)
          have "ds ! j' \<le> d0 + int k" using j'(2) t by simp
          with mx j'(1) have "ds ! j' \<le> ds ! i" by blast
          then show False using j' j0 t by simp
        qed
        then have "m (d0 + int t) = None" by (simp add: m_def x_to_y_miss)
        then show "m (date_range d0 n ! t) = None" using t k by (simp add: date_range_nth)
      qed
      show ?thesis
        using forward_fill_latest [OF kl jk hit miss] by (simp add: s_def)
    qed
    show ?thesis
      using init fill vals
      by (intro exI [of _ s]) (simp add: s_def forward_fill_length date_range_length d0_def [symmetric] n_def [symmetric] vs_def [symmetric])
  next
    case False
    then have n_eq: "n = int (length ds)" using n_ge len by (simp add: vs_def)
    define s where "s = \<lparr>series_ux = date_range d0 n, series_x = map to_datetime (date_range d0 n),
                         series_y = vs\<rparr>"
    have fill: "Series_fill d0 n (Some (XDates ds)) y = Inr s"
      using False by (simp add: Series_fill_def Let_def vs_def s_def y_values_def split: y_arg.splits)
    have consec: "ds ! i = d0 + int i" if "i < length ds" for i
      using lower [OF that] upper [OF that] n_eq that by (simp add: n_def)
    have vals: "series_y s ! k = vs ! i"
      if k: "k < nat n" and i: "i < length ds" and le: "ds ! i \<le> d0 + int k"
        and mx: "\<forall>j<length ds. ds ! j \<le> d0 + int k \<longrightarrow> ds ! j \<le> ds ! i" for k i
    proof -
      have kl: "k < length ds" using k n_eq by simp
      have "ds ! k \<le> d0 + int k" using consec [OF kl] by simp
      with mx kl have "ds ! k \<le> ds ! i" by blast
      then have "k \<le> i" using consec [OF kl] consec [OF i] by simp
      moreover have "i \<le> k" using le consec [OF i] by simp
      ultimately show ?thesis by (simp add: s_def)
    qed
    show ?thesis
      using init fill vals n_eq len
      by (intro exI [of _ s]) (simp add: s_def date_range_length d0_def [symmetric] n_def [symmetric] vs_def [symmetric])
  qed
qed

lemma sorted_Min_hd: "sorted (ds :: int list) \<Longrightarrow> ds \<noteq> [] \<Longrightarrow> Min (set ds) = hd ds"
  by (cases ds) (auto intro!: Min_eqI)

lemma sorted_Max_last:
  assumes "sorted (ds :: int list)" and "ds \<noteq> []"
  shows "Max (set ds) = last ds"
proof (rule Max_eqI)
  show "finite (set ds)" by simp
  show "last ds \<in> set ds" using assms(2) by simp
  fix d assume "d \<in> set ds"
  then obtain i where i: "i < length ds" "ds ! i = d" by (auto simp: in_set_conv_nth)
  have "ds ! i \<le> ds ! (length ds - 1)"
    using assms i(1) by (intro sorted_nth_mono) auto
  then show "d \<le> last ds" using i(2) assms(2) by (simp add: last_conv_nth)
qed

text \<open>
  C1. From strictly ascending dates and as many values, the constructor returns a series
  with one entry for every day from the least to the greatest input date: its length is
  \<open>(max - min) + 1\<close>; dates, datetimes and values have the same length; the date at
  position \<open>k\<close> is \<open>min + k\<close>. The value of a day that is an input date is the input
  value of that day; the value of a day that is not is the input value of the latest
  input date before it. The last part is the default of the densification loop: a day
  with no input date at or before it gets \<open>0.0\<close> (in a series built this way the first
  day is an input date, so no day is in that case).
\<close>

theorem sparse_dates_densified:
  assumes "sorted_wrt (<) ds" and "ds \<noteq> []" and "length (y_values y) = length ds"
  shows "\<exists>s. Series_init parse isofmt y (Some (XDates ds)) None = Inr s
           \<and> Series_len s = Max (set ds) - Min (set ds) + 1
           \<and> length (series_ux s) = length (series_y s)
           \<and> length (series_x s) = length (series_y s)
           \<and> (\<forall>k<length (series_y s).
                 series_ux s ! k = Min (set ds) + int k
               \<and> series_x s ! k = to_datetime (Min (set ds) + int k)
               \<and> (\<forall>i<length ds. ds ! i = Min (set ds) + int k \<longrightarrow>
                      series_y s ! k = y_values y ! i)
               \<and> (Min (set ds) + int k \<notin> set ds \<longrightarrow>
                    (\<forall>i<length ds.
                        ds ! i < Min (set ds) + int k
                        \<and> (\<forall>j<length ds. ds ! j < Min (set ds) + int k \<longrightarrow> ds ! j \<le> ds ! i)
                      \<longrightarrow> series_y s ! k = y_values y ! i)))
           \<and> (\<forall>x_to_y days k. k < length days \<and> (\<forall>i\<le>k. x_to_y (days ! i) = None) \<longrightarrow>
                 forward_fill x_to_y 0 days ! k = 0)"
proof -
  have srt: "sorted ds" using assms(1) by (simp add: strict_sorted_iff)
  have mn: "Min (set ds) = hd ds" and mx: "Max (set ds) = last ds"
    using srt assms(2) by (simp_all add: sorted_Min_hd sorted_Max_last)
  have ge: "hd ds \<le> last ds"
    using srt assms(2) mn mx by (metis List.finite_set Min_le last_in_set)
  obtain s where s: "Series_init parse isofmt y (Some (XDates ds)) None = Inr s"
    and ux: "series_ux s = date_range (hd ds) (last ds - hd ds + 1)"
    and sx: "series_x s = map to_datetime (series_ux s)"
    and ly: "length (series_y s) = nat (last ds - hd ds + 1)"
    and vals: "\<And>k i. k < nat (last ds - hd ds + 1) \<Longrightarrow> i < length ds \<Longrightarrow> ds ! i \<le> hd ds + int k \<Longrightarrow>
                 (\<forall>j<length ds. ds ! j \<le> hd ds + int k \<longrightarrow> ds ! j \<le> ds ! i) \<Longrightarrow>
                 series_y s ! k = y_values y ! i"
    using Series_init_sparse [OF assms, of parse isofmt] by blast
  have present: "series_y s ! k = y_values y ! i"
    if "k < length (series_y s)" and "i < length ds" and "ds ! i = hd ds + int k" for k i
    using that vals [of k i] ly by simp
  have absent: "series_y s ! k = y_values y ! i"
    if k: "k < length (series_y s)" and notin: "hd ds + int k \<notin> set ds"
      and i: "i < length ds" and lt: "ds ! i < hd ds + int k"
      and latest: "\<forall>j<length ds. ds ! j < hd ds + int k \<longrightarrow> ds ! j \<le> ds ! i" for k i
  proof (rule vals)
    show "k < nat (last ds - hd ds + 1)" using k ly by simp
    show "i < length ds" by (rule i)
    show "ds ! i \<le> hd ds + int k" using lt by simp
    show "\<forall>j<length ds. ds ! j \<le> hd ds + int k \<longrightarrow> ds ! j \<le> ds ! i"
    proof (intro allI impI)
      fix j assume j: "j < length ds" and le: "ds ! j \<le> hd ds + int k"
      have "ds ! j \<noteq> hd ds + int k" using notin j by (metis nth_mem)
      then have "ds ! j < hd ds + int k" using le by simp
      then show "ds ! j \<le> ds ! i" using latest j by blast
    qed
  qed
  have "Series_len s = Max (set ds) - Min (set ds) + 1"
    using ly ge by (simp add: Series_len_def mn mx)
  moreover have "length (series_ux s) = length (series_y s)"
    using ux ly by (simp add: date_range_length)
  moreover have "length (series_x s) = length (series_y s)"
    using ux sx ly by (simp add: date_range_length)
  moreover have "series_ux s ! k = Min (set ds) + int k" if "k < length (series_y s)" for k
    using that ux ly by (simp add: date_range_nth mn)
  moreover have "series_x s ! k = to_datetime (Min (set ds) + int k)" if "k < length (series_y s)" for k
    using that ux sx ly by (simp add: date_range_nth date_range_length mn)
  moreover have "\<forall>x_to_y days k. k < length days \<and> (\<forall>i\<le>k. x_to_y (days ! i) = None) \<longrightarrow>
                 forward_fill x_to_y 0 days ! k = 0"
    by (simp add: forward_fill_default)
  ultimately show ?thesis
    using s present absent unfolding mn by (intro exI [of _ s]) blast
qed

theorem sparse_dates_densified_witness:
  "sorted_wrt (<) [10, 12, 15 :: int]
   \<and> length (y_values (PyList [1, 2, 3])) = length [10, 12, 15 :: int]
   \<and> Series_init sample_parse sample_isoformat (PyList [1, 2, 3]) (Some (XDates [10, 12, 15])) None =
       Inr \<lparr>series_ux = [10, 11, 12, 13, 14, 15],
            series_x = [(10, 0), (11, 0), (12, 0), (13, 0), (14, 0), (15, 0)],
            series_y = [1, 1, 2, 2, 2, 3]\<rparr>
   \<and> Max (set [10, 12, 15 :: int]) - Min (set [10, 12, 15]) + 1 = 6
   \<and> forward_fill (Map.empty (12 \<mapsto> 7)) 0 [10, 11, 12] = [0, 0, 7]"
proof -
  have h1: "sorted_wrt (<) [10, 12, 15 :: int]" by simp
  have h2: "[10, 12, 15 :: int] \<noteq> []" by simp
  have h3: "length (y_values (PyList [1, 2, 3])) = length [10, 12, 15 :: int]"
    by (simp add: y_values_def)
  have ev: "Series_init sample_parse sample_isoformat (PyList [1, 2, 3]) (Some (XDates [10, 12, 15])) None =
       Inr \<lparr>series_ux = [10, 11, 12, 13, 14, 15],
            series_x = [(10, 0), (11, 0), (12, 0), (13, 0), (14, 0), (15, 0)],
            series_y = [1, 1, 2, 2, 2, 3]\<rparr>"
    by (simp add: Series_init_def truthy_start_def Series_fill_def date_range_def y_values_def
        map_x_to_y_def x_seq_len_def to_datetime_def upt_conv_Cons)
  have ff: "forward_fill (Map.empty (12 \<mapsto> 7)) 0 [10, 11, 12 :: int] = [0, 0, 7]"
    by simp
  show ?thesis
    using sparse_dates_densified [OF h1 h2 h3, of sample_parse sample_isoformat] h1 h3 ev ff
    by simp
qed

subsection \<open>Indexing by offset, date or string\<close>

lemma sample_series_built:
  "Series_init sample_parse sample_isoformat (PyList [1, 2, 3]) None (Some (SDate 737485)) =
     Inr sample_series"
  by (simp add: Series_init_def truthy_start_def Series_fill_def date_range_def y_values_def
      to_datetime_def sample_series_def upt_conv_Cons)

lemma Series_fill_ux:
  "Series_fill d n x y = Inr s \<Longrightarrow>
   series_ux s = date_range d n \<and> series_x s = map to_datetime (series_ux s)"
  by (auto simp: Series_fill_def Let_def split: sum.splits if_splits)

lemma Series_init_ux:
  assumes "Series_init parse isofmt y x start_date = Inr s"
  shows "\<exists>d n. series_ux s = date_range d n \<and> series_x s = map to_datetime (series_ux s)"
proof (cases "truthy_start start_date")
  case True
  then show ?thesis using assms
    by (auto simp: Series_init_def split: if_splits sum.splits dest!: Series_fill_ux)
next
  case False
  then show ?thesis using assms
    by (auto simp: Series_init_def split: if_splits option.splits sum.splits list.splits
        dest!: Series_fill_ux)
qed

lemma date_range_last: "0 < n \<Longrightarrow> last (date_range d n) = d + n - 1"
  by (simp add: date_range_def last_map nat_diff_distrib' last_conv_nth)

lemma date_range_hd: "0 < n \<Longrightarrow> hd (date_range d n) = d"
  by (simp add: date_range_def hd_map upt_conv_Cons)

text \<open>
  C3, as stated, fails: \<^verbatim>\<open>get_index\<close> returns an integer argument as it is, so on a
  series of three days the offsets 5 and -4 come back unchanged, outside \<open>[0, 2]\<close>; and
  on a series with no days a date raises \<^verbatim>\<open>IndexError\<close>.
\<close>

theorem get_index_integer_not_clamped:
  "Series_init sample_parse sample_isoformat (PyList [1, 2, 3]) None (Some (SDate 737485)) =
     Inr sample_series
   \<and> Series_len sample_series = 3
   \<and> get_index sample_parse sample_series (IInt 5) = Inr 5
   \<and> get_index sample_parse sample_series (IInt (- 4)) = Inr (- 4)
   \<and> \<not> (0 \<le> (5::int) \<and> 5 \<le> Series_len sample_series - 1)
   \<and> \<not> (0 \<le> (- 4::int) \<and> - 4 \<le> Series_len sample_series - 1)
   \<and> Series_init sample_parse sample_isoformat (PyList []) None (Some (SDate 737485)) =
       Inr \<lparr>series_ux = [], series_x = [], series_y = []\<rparr>
   \<and> get_index sample_parse \<lparr>series_ux = [], series_x = [], series_y = []\<rparr> (IDate 737485) =
       Inl IndexError"
  by (simp add: get_index_def Series_len_def sample_series_def clamp_date_def
      Series_init_def truthy_start_def Series_fill_def date_range_def y_values_def
      to_datetime_def upt_conv_Cons)

text \<open>
  C3, amended. On a series the constructor built and that has at least one day, a date
  resolves without an error to \<open>min (max (date - first date) 0) (number of dates - 1)\<close>,
  an offset in \<open>[0, number of dates - 1]\<close>: a date up to the first date gives 0 and a
  date from the last date on gives the last offset. A string that parses resolves as its
  date does, a string that does not parse raises the parser's error, and an integer is
  returned unchanged.
\<close>

theorem get_index_clamps_dates:
  assumes built: "Series_init parse isofmt y x start_date = Inr s"
    and ne: "series_ux s \<noteq> []"
  shows "(\<exists>r. get_index parse s (IDate d) = Inr r
              \<and> r = min (max (d - hd (series_ux s)) 0) (int (length (series_ux s)) - 1)
              \<and> 0 \<le> r \<and> r \<le> int (length (series_ux s)) - 1
              \<and> (d \<le> hd (series_ux s) \<longrightarrow> r = 0)
              \<and> (last (series_ux s) \<le> d \<longrightarrow> r = int (length (series_ux s)) - 1))
         \<and> (parse str = Some d \<longrightarrow> get_index parse s (IStr str) = get_index parse s (IDate d))
         \<and> (parse str = None \<longrightarrow> get_index parse s (IStr str) = Inl ParseError)
         \<and> get_index parse s (IInt i) = Inr i"
proof -
  obtain d0 n where ux: "series_ux s = date_range d0 n"
    using Series_init_ux [OF built] by blast
  have n: "0 < n" using ne ux by (cases "0 < n") (simp_all add: date_range_def)
  have hd: "hd (series_ux s) = d0" and lst: "last (series_ux s) = d0 + n - 1"
    using n ux by (simp_all add: date_range_hd date_range_last)
  have len: "int (length (series_ux s)) = n"
    using n ux by (simp add: date_range_def)
  obtain d' ds' where cons: "series_ux s = d' # ds'" using ne by (cases "series_ux s") auto
  then have d': "d' = d0" using hd by simp
  have clamp: "clamp_date s d = Inr (min (max (d - d0) 0) (n - 1))"
    using cons d' len by (simp add: clamp_date_def)
  show ?thesis
    using clamp n hd lst len
    by (auto simp: get_index_def get_date_from_isoformat_def)
qed

theorem get_index_clamps_dates_witness:
  "Series_init sample_parse sample_isoformat (PyList [1, 2, 3]) None (Some (SDate 737485)) =
     Inr sample_series
   \<and> series_ux sample_series \<noteq> []
   \<and> get_index sample_parse sample_series (IDate 737400) = Inr 0
   \<and> get_index sample_parse sample_series (IDate 737486) = Inr 1
   \<and> get_index sample_parse sample_series (IDate 737999) = Inr 2
   \<and> get_index sample_parse sample_series (IStr ''2020-03-01'') = Inr 0
   \<and> get_index sample_parse sample_series (IStr ''tomorrow'') = Inl ParseError
   \<and> get_index sample_parse sample_series (IInt 7) = Inr 7"
proof -
  have ne: "series_ux sample_series \<noteq> []" by (simp add: sample_series_def)
  note t = get_index_clamps_dates [OF sample_series_built ne]
  show ?thesis
    using t [of 737400 "''2020-03-01''" 7] t [of 737486 "''tomorrow''" 7] t [of 737999 "[]" 7]
      sample_series_built ne
    by (simp add: sample_series_def sample_parse_def get_index_def clamp_date_def
        get_date_from_isoformat_def)
qed

subsection \<open>Bands and invalid items\<close>

text \<open>
  C5, amended. For a lower and an upper series with as many dates and as many values, and
  a color index of the palette, \<^verbatim>\<open>plot_confidence_range\<close> returns the figure with one
  more trace, a filled one, whose x is the upper dates followed by the lower dates
  reversed and whose y is the upper values followed by the lower values reversed. When
  the two series have different numbers of dates the call raises \<^verbatim>\<open>AssertionError\<close>
  (the spec's InvariantError); so it does for two series of different length each of
  which has as many dates as values.
\<close>

theorem band_geometry:
  "(length (series_x lo) = length (series_x hi) \<and> length (series_y lo) = length (series_y hi)
      \<and> py_index PLOT_COLORS color_index = Inr c \<longrightarrow>
      (\<exists>fig'. plot_confidence_range fig lo hi legend color_index = Inr fig'
          \<and> fig_traces fig' =
              fig_traces fig @
              [Fill (series_x hi @ rev (series_x lo)) (series_y hi @ rev (series_y lo))
                 (snd c) (snd c) (legend \<noteq> None) legend]))
   \<and> (length (series_x lo) \<noteq> length (series_x hi) \<longrightarrow>
        plot_confidence_range fig lo hi legend color_index = Inl AssertionError)
   \<and> (length (series_x lo) = length (series_y lo) \<and> length (series_x hi) = length (series_y hi)
        \<and> Series_len lo \<noteq> Series_len hi \<longrightarrow>
        plot_confidence_range fig lo hi legend color_index = Inl AssertionError)"
  by (auto simp: plot_confidence_range_def concat_seq_def Series_len_def add_trace_def)

lemma PLOT_COLORS_0: "py_index PLOT_COLORS 0 = Inr (''rgba(0,0,255,1)'', ''rgba(0,0,255,0.25)'')"
  by (simp add: py_index_def PLOT_COLORS_def)

theorem band_geometry_witness:
  "plot_confidence_range empty_figure sample_series sample_high None 0 =
     Inr (empty_figure\<lparr>fig_traces :=
            [Fill [(737485, 0), (737486, 0), (737487, 0), (737487, 0), (737486, 0), (737485, 0)]
                  [4, 5, 6, 3, 2, 1] ''rgba(0,0,255,0.25)'' ''rgba(0,0,255,0.25)'' False None]\<rparr>)
   \<and> plot_confidence_range empty_figure sample_short sample_high None 0 = Inl AssertionError"
proof -
  have len: "length (series_x sample_series) = length (series_x sample_high)
      \<and> length (series_y sample_series) = length (series_y sample_high)
      \<and> py_index PLOT_COLORS 0 = Inr (''rgba(0,0,255,1)'', ''rgba(0,0,255,0.25)'')"
    by (simp add: sample_series_def sample_high_def PLOT_COLORS_0)
  have ne: "length (series_x sample_short) \<noteq> length (series_x sample_high)"
    by (simp add: sample_short_def sample_high_def)
  note t1 = band_geometry [of sample_series sample_high 0
      "(''rgba(0,0,255,1)'', ''rgba(0,0,255,0.25)'')" empty_figure None]
  note t2 = band_geometry [of sample_short sample_high 0
      "(''rgba(0,0,255,1)'', ''rgba(0,0,255,0.25)'')" empty_figure None]
  from t1 len obtain fig' where
    fig': "plot_confidence_range empty_figure sample_series sample_high None 0 = Inr fig'"
    and tr: "fig_traces fig' =
              fig_traces empty_figure @
              [Fill (series_x sample_high @ rev (series_x sample_series))
                 (series_y sample_high @ rev (series_y sample_series))
                 ''rgba(0,0,255,0.25)'' ''rgba(0,0,255,0.25)'' False None]"
    by auto
  have rest: "fig' = empty_figure\<lparr>fig_traces := fig_traces fig'\<rparr>"
    using fig'
    by (auto simp: plot_confidence_range_def add_trace_def empty_figure_def
        split: if_splits sum.splits)
  have err: "plot_confidence_range empty_figure sample_short sample_high None 0 = Inl AssertionError"
    using t2 ne by blast
  have "fig' = empty_figure\<lparr>fig_traces :=
            [Fill [(737485, 0), (737486, 0), (737487, 0), (737487, 0), (737486, 0), (737485, 0)]
                  [4, 5, 6, 3, 2, 1] ''rgba(0,0,255,0.25)'' ''rgba(0,0,255,0.25)'' False None]\<rparr>"
    using rest tr by (simp add: empty_figure_def sample_series_def sample_high_def)
  then show ?thesis
    using fig' err by simp
qed





subsection \<open>The order of the traces\<close>

lemma plot_item_kinds:
  assumes "plot_item parse isofmt opts i item = Inr (areas, lines)"
  shows "(\<forall>f\<in>set areas. \<exists>lo hi legend c. f = PlotConfidenceRange lo hi legend c)
       \<and> (\<forall>f\<in>set lines. \<exists>s n c. f = PlotLine s n c)"
  using assms
  by (auto simp: plot_item_def Let_def split: if_splits sum.splits)

lemma plot_loop_items:
  assumes "plot_loop parse isofmt opts i items area_fns line_fns = Inr (areas, lines)"
  shows "\<exists>rs. length rs = length items
            \<and> (\<forall>k<length items. plot_item parse isofmt opts (i + k) (items ! k) = Inr (rs ! k))
            \<and> areas = area_fns @ concat (map fst rs)
            \<and> lines = line_fns @ concat (map snd rs)"
  using assms
proof (induction items arbitrary: i area_fns line_fns)
  case Nil
  then show ?case by simp
next
  case (Cons item items)
  from Cons.prems obtain new_areas new_lines
    where item: "plot_item parse isofmt opts i item = Inr (new_areas, new_lines)"
      and rest: "plot_loop parse isofmt opts (Suc i) items (area_fns @ new_areas) (line_fns @ new_lines) =
                   Inr (areas, lines)"
    by (auto split: sum.splits)
  from Cons.IH [OF rest] obtain rs
    where rs: "length rs = length items"
      "\<forall>k<length items. plot_item parse isofmt opts (Suc i + k) (items ! k) = Inr (rs ! k)"
      "areas = (area_fns @ new_areas) @ concat (map fst rs)"
      "lines = (line_fns @ new_lines) @ concat (map snd rs)"
    by blast
  have "\<forall>k<length (item # items).
          plot_item parse isofmt opts (i + k) ((item # items) ! k) = Inr (((new_areas, new_lines) # rs) ! k)"
  proof (intro allI impI)
    fix k assume "k < length (item # items)"
    then show "plot_item parse isofmt opts (i + k) ((item # items) ! k) = Inr (((new_areas, new_lines) # rs) ! k)"
      using item rs(2) by (cases k) auto
  qed
  then show ?case
    using rs by (intro exI [of _ "(new_areas, new_lines) # rs"]) simp
qed

lemma call_fn_trace:
  assumes "call_fn fig f = Inr fig'"
  shows "\<exists>t. fig' = add_trace fig t \<and> call_fn empty_figure f = Inr (add_trace empty_figure t)
            \<and> draws_kind f t"
  using assms
  by (cases f)
     (auto simp: plot_line_def plot_confidence_range_def draws_kind_def split: sum.splits if_splits)

lemma call_fns_traces:
  assumes "call_fns fig fns = Inr fig'"
  shows "\<exists>ts. fig' = fig\<lparr>fig_traces := fig_traces fig @ ts\<rparr> \<and> length ts = length fns
            \<and> (\<forall>k<length fns.
                   call_fn empty_figure (fns ! k) = Inr (add_trace empty_figure (ts ! k))
                 \<and> draws_kind (fns ! k) (ts ! k))"
  using assms
proof (induction fns arbitrary: fig)
  case Nil
  then show ?case by simp
next
  case (Cons f fns)
  from Cons.prems obtain fig1 where f: "call_fn fig f = Inr fig1" and rest: "call_fns fig1 fns = Inr fig'"
    by (auto split: sum.splits)
  from call_fn_trace [OF f] obtain t
    where t: "fig1 = add_trace fig t" "call_fn empty_figure f = Inr (add_trace empty_figure t)"
      "draws_kind f t"
    by blast
  from Cons.IH [OF rest] obtain ts
    where ts: "fig' = fig1\<lparr>fig_traces := fig_traces fig1 @ ts\<rparr>" "length ts = length fns"
      "\<forall>k<length fns.
          call_fn empty_figure (fns ! k) = Inr (add_trace empty_figure (ts ! k))
        \<and> draws_kind (fns ! k) (ts ! k)"
    by blast
  have all: "\<forall>k<length (f # fns).
          call_fn empty_figure ((f # fns) ! k) = Inr (add_trace empty_figure ((t # ts) ! k))
        \<and> draws_kind ((f # fns) ! k) ((t # ts) ! k)"
  proof (intro allI impI)
    fix k assume "k < length (f # fns)"
    then show "call_fn empty_figure ((f # fns) ! k) = Inr (add_trace empty_figure ((t # ts) ! k))
        \<and> draws_kind ((f # fns) ! k) ((t # ts) ! k)"
      using t(2,3) ts(3) by (cases k) auto
  qed
  have "fig' = fig\<lparr>fig_traces := fig_traces fig @ (t # ts)\<rparr>"
    using ts(1) t(1) by (simp add: add_trace_def)
  then show ?case
    using ts(2) all by (intro exI [of _ "t # ts"]) simp
qed

lemma finish_layout_traces: "fig_traces (finish_layout fig title_text opts n) = fig_traces fig"
  by (simp add: finish_layout_def Let_def split: option.splits)

text \<open>
  C2. Whenever \<^verbatim>\<open>plot\<close> returns a figure, its traces are a list of filled traces
  followed by a list of line traces. With \<open>rs ! k\<close> the partials the loop body built
  for the item at position \<open>k\<close> (its area partials and its line partials), the filled
  traces are, one for one and in this order, what the area partials of item 0, item 1,
  and so on draw, and the line traces are what the line partials of item 0, item 1, and
  so on draw: within each group the order is the order of the items.
\<close>

theorem fills_before_lines:
  assumes "plot parse isofmt items title_text opts = Inr fig"
  shows "\<exists>rs fills lines.
           length rs = length items
         \<and> (\<forall>k<length items. plot_item parse isofmt opts k (items ! k) = Inr (rs ! k))
         \<and> fig_traces fig = fills @ lines
         \<and> length fills = length (concat (map fst rs))
         \<and> length lines = length (concat (map snd rs))
         \<and> (\<forall>k<length fills.
               is_fill (fills ! k)
             \<and> call_fn empty_figure (concat (map fst rs) ! k) =
                 Inr (add_trace empty_figure (fills ! k)))
         \<and> (\<forall>k<length lines.
               is_line (lines ! k)
             \<and> call_fn empty_figure (concat (map snd rs) ! k) =
                 Inr (add_trace empty_figure (lines ! k)))"
proof -
  from assms obtain area_fns line_fns fig1 fig2
    where loop: "plot_loop parse isofmt opts 0 items [] [] = Inr (area_fns, line_fns)"
      and areas: "call_fns empty_figure area_fns = Inr fig1"
      and lines: "call_fns fig1 line_fns = Inr fig2"
      and fig: "fig = finish_layout fig2 title_text opts (length items)"
    by (auto simp: plot_def split: sum.splits prod.splits)
  from plot_loop_items [OF loop] obtain rs
    where rs: "length rs = length items"
      "\<forall>k<length items. plot_item parse isofmt opts k (items ! k) = Inr (rs ! k)"
      "area_fns = concat (map fst rs)" "line_fns = concat (map snd rs)"
    by auto
  from call_fns_traces [OF areas] obtain fills
    where fills: "fig1 = empty_figure\<lparr>fig_traces := fig_traces empty_figure @ fills\<rparr>"
      "length fills = length area_fns"
      "\<forall>k<length area_fns.
          call_fn empty_figure (area_fns ! k) = Inr (add_trace empty_figure (fills ! k))
        \<and> draws_kind (area_fns ! k) (fills ! k)"
    by blast
  from call_fns_traces [OF lines] obtain lns
    where lns: "fig2 = fig1\<lparr>fig_traces := fig_traces fig1 @ lns\<rparr>"
      "length lns = length line_fns"
      "\<forall>k<length line_fns.
          call_fn empty_figure (line_fns ! k) = Inr (add_trace empty_figure (lns ! k))
        \<and> draws_kind (line_fns ! k) (lns ! k)"
    by blast
  have area_kind: "\<exists>lo hi legend c. f = PlotConfidenceRange lo hi legend c" if "f \<in> set area_fns" for f
  proof -
    from that rs(3) obtain r where r: "r \<in> set rs" "f \<in> set (fst r)" by auto
    then obtain k where k: "k < length rs" "rs ! k = r" by (auto simp: in_set_conv_nth)
    then have "plot_item parse isofmt opts k (items ! k) = Inr (fst r, snd r)"
      using rs(1,2) by simp
    from plot_item_kinds [OF this] r(2) show ?thesis by blast
  qed
  have line_kind: "\<exists>s n c. f = PlotLine s n c" if "f \<in> set line_fns" for f
  proof -
    from that rs(4) obtain r where r: "r \<in> set rs" "f \<in> set (snd r)" by auto
    then obtain k where k: "k < length rs" "rs ! k = r" by (auto simp: in_set_conv_nth)
    then have "plot_item parse isofmt opts k (items ! k) = Inr (fst r, snd r)"
      using rs(1,2) by simp
    from plot_item_kinds [OF this] r(2) show ?thesis by blast
  qed
  have traces: "fig_traces fig = fills @ lns"
    using fig fills(1) lns(1) by (simp add: finish_layout_traces empty_figure_def)
  have fill_ok: "is_fill (fills ! k) \<and>
      call_fn empty_figure (area_fns ! k) = Inr (add_trace empty_figure (fills ! k))"
    if "k < length fills" for k
  proof -
    have k: "k < length area_fns" using that fills(2) by simp
    then obtain lo hi legend c where "area_fns ! k = PlotConfidenceRange lo hi legend c"
      using area_kind [of "area_fns ! k"] by auto
    then show ?thesis using fills(3) k by (auto simp: draws_kind_def)
  qed
  have line_ok: "is_line (lns ! k) \<and>
      call_fn empty_figure (line_fns ! k) = Inr (add_trace empty_figure (lns ! k))"
    if "k < length lns" for k
  proof -
    have k: "k < length line_fns" using that lns(2) by simp
    then obtain s n c where "line_fns ! k = PlotLine s n c"
      using line_kind [of "line_fns ! k"] by auto
    then show ?thesis using lns(3) k by (auto simp: draws_kind_def)
  qed
  show ?thesis
    using rs(1,2) traces fills(2) lns(2) fill_ok line_ok
    unfolding rs(3) rs(4)
    by (intro exI [of _ rs] exI [of _ fills] exI [of _ lns]) simp
qed

lemma trim_sample_series:
  "trim sample_parse sample_isoformat sample_series None None = Inr sample_series"
  by (simp add: trim_def start_or_0_def get_index_def get_stop_index_def Series_len_def
      py_slice_def slice_bound_def sample_series_def Series_init_def truthy_start_def
      Series_fill_def date_range_def y_values_def to_datetime_def upt_conv_Cons)

lemma trim_sample_high:
  "trim sample_parse sample_isoformat sample_high None None = Inr sample_high"
  by (simp add: trim_def start_or_0_def get_index_def get_stop_index_def Series_len_def
      py_slice_def slice_bound_def sample_high_def Series_init_def truthy_start_def
      Series_fill_def date_range_def y_values_def to_datetime_def upt_conv_Cons)

lemma trim_sample_short:
  "trim sample_parse sample_isoformat sample_short None None = Inr sample_short"
  by (simp add: trim_def start_or_0_def get_index_def get_stop_index_def Series_len_def
      py_slice_def slice_bound_def sample_short_def Series_init_def truthy_start_def
      Series_fill_def date_range_def y_values_def to_datetime_def upt_conv_Cons)

lemma sample_items_loop:
  "plot_loop sample_parse sample_isoformat default_options 0 sample_items [] [] =
     Inr ([PlotConfidenceRange sample_series sample_high None 1],
          [PlotLine sample_series ''A'' 0, PlotLine sample_short ''B'' 1])"
  by (simp add: sample_items_def plot_item_def is_Series_def data_len_def data_trim_def
      data_getitem_def py_index_def default_options_def trim_sample_series trim_sample_high
      trim_sample_short PLOT_COLORS_def)

lemma sample_items_length: "length sample_items = 2"
  by (simp add: sample_items_def)

theorem fills_before_lines_witness:
  "plot sample_parse sample_isoformat sample_items ''chart'' default_options =
     Inr \<lparr>fig_traces =
            [Fill [(737485, 0), (737486, 0), (737487, 0), (737487, 0), (737486, 0), (737485, 0)]
                  [4, 5, 6, 3, 2, 1] ''rgba(255,0,0,0.25)'' ''rgba(255,0,0,0.25)'' False None,
             Line [(737485, 0), (737486, 0), (737487, 0)] [1, 2, 3] ''rgba(0,0,255,1)'' ''A'',
             Line [(737485, 0), (737486, 0)] [8, 9] ''rgba(255,0,0,1)'' ''B''],
          fig_title = Some ''chart'', fig_yaxis_range = None, fig_yaxis_log = False,
          fig_width = None, fig_showlegend = None\<rparr>"
proof -
  have ev: "plot sample_parse sample_isoformat sample_items ''chart'' default_options =
     Inr \<lparr>fig_traces =
            [Fill [(737485, 0), (737486, 0), (737487, 0), (737487, 0), (737486, 0), (737485, 0)]
                  [4, 5, 6, 3, 2, 1] ''rgba(255,0,0,0.25)'' ''rgba(255,0,0,0.25)'' False None,
             Line [(737485, 0), (737486, 0), (737487, 0)] [1, 2, 3] ''rgba(0,0,255,1)'' ''A'',
             Line [(737485, 0), (737486, 0)] [8, 9] ''rgba(255,0,0,1)'' ''B''],
          fig_title = Some ''chart'', fig_yaxis_range = None, fig_yaxis_log = False,
          fig_width = None, fig_showlegend = None\<rparr>"
    unfolding plot_def sample_items_loop sample_items_length
    by (simp add: plot_confidence_range_def
        plot_line_def concat_seq_def py_index_def PLOT_COLORS_def add_trace_def empty_figure_def
        finish_layout_def default_options_def sample_series_def sample_high_def
        sample_short_def)
  show ?thesis
    using fills_before_lines [OF ev] ev by simp
qed

lemma plot_bare_first_item_fails:
  "plot parse isofmt ((Bare s, pop_name) # items) title_text opts =
     Inl (if series_y s = [] then IndexError else AttributeError)"
  by (simp add: plot_def plot_item_def is_Series_def data_trim_def data_getitem_def
      Series_getitem_def get_index_def py_index_def)

lemma plot_single_collection:
  assumes "trim parse isofmt s (opt_start opts) (opt_stop opts) = Inr s'"
    and "py_index PLOT_COLORS (case opt_cindex opts of None \<Rightarrow> 0 | Some c \<Rightarrow> c) = Inr col"
  shows "\<exists>fig. plot parse isofmt [(Coll [s], pop_name)] title_text opts = Inr fig
           \<and> fig_traces fig = [Line (series_x s') (series_y s') (fst col) pop_name]"
  using assms
  by (auto simp: plot_def plot_item_def is_Series_def data_len_def data_trim_def data_getitem_def
      py_index_def plot_line_def add_trace_def empty_figure_def finish_layout_traces
      PLOT_COLORS_def split: option.splits if_splits)

lemma plot_sample_collection:
  "plot sample_parse sample_isoformat [(Coll [sample_series], ''A'')] ''chart'' default_options =
     Inr \<lparr>fig_traces = [Line (series_x sample_series) (series_y sample_series) ''rgba(0,0,255,1)'' ''A''],
          fig_title = Some ''chart'', fig_yaxis_range = None, fig_yaxis_log = False,
          fig_width = None, fig_showlegend = Some False\<rparr>"
  by (simp add: plot_def plot_item_def is_Series_def data_len_def data_trim_def data_getitem_def
      py_index_def trim_sample_series default_options_def plot_line_def add_trace_def
      empty_figure_def finish_layout_def PLOT_COLORS_def)

text \<open>
  C4. A bare series as a plot item makes \<^verbatim>\<open>plot\<close> raise: the branch taken for
  \<^verbatim>\<open>isinstance(data, Series)\<close> evaluates \<^verbatim>\<open>data[0].trim(start, stop)\<close>, and on a series
  \<^verbatim>\<open>data[0]\<close> is \<^verbatim>\<open>Series.__getitem__(0)\<close>, the first value, a number with no attribute
  \<^verbatim>\<open>trim\<close>. Evaluated here on the series of three days built by the constructor:
  \<^verbatim>\<open>AttributeError\<close> and no figure, where the claim has one line trace. The same series
  in a collection of one element is drawn as the claim says.
\<close>

theorem plot_bare_series_raises:
  "Series_init sample_parse sample_isoformat (PyList [1, 2, 3]) None (Some (SDate 737485)) =
     Inr sample_series
   \<and> data_getitem sample_parse (Bare sample_series) 0 = Inr (ENumber 1)
   \<and> plot sample_parse sample_isoformat [(Bare sample_series, ''A'')] ''chart'' default_options =
       Inl AttributeError
   \<and> plot sample_parse sample_isoformat [(Coll [sample_series], ''A'')] ''chart'' default_options =
       Inr \<lparr>fig_traces =
              [Line [(737485, 0), (737486, 0), (737487, 0)] [1, 2, 3] ''rgba(0,0,255,1)'' ''A''],
            fig_title = Some ''chart'', fig_yaxis_range = None, fig_yaxis_log = False,
            fig_width = None, fig_showlegend = Some False\<rparr>"
proof -
  have item: "data_getitem sample_parse (Bare sample_series) 0 = Inr (ENumber 1)"
    by (simp add: data_getitem_def Series_getitem_def get_index_def py_index_def sample_series_def)
  have bare: "plot sample_parse sample_isoformat [(Bare sample_series, ''A'')] ''chart''
                default_options = Inl AttributeError"
    by (simp add: plot_bare_first_item_fails sample_series_def)
  have coll: "plot sample_parse sample_isoformat [(Coll [sample_series], ''A'')] ''chart''
                default_options =
       Inr \<lparr>fig_traces =
              [Line [(737485, 0), (737486, 0), (737487, 0)] [1, 2, 3] ''rgba(0,0,255,1)'' ''A''],
            fig_title = Some ''chart'', fig_yaxis_range = None, fig_yaxis_log = False,
            fig_width = None, fig_showlegend = Some False\<rparr>"
    unfolding plot_sample_collection by (simp add: sample_series_def)
  show ?thesis
    using sample_series_built item bare coll by (intro conjI)
qed

subsection \<open>A band over series of unequal value counts\<close>

lemma sample_wide_built:
  "Series_init sample_parse sample_isoformat (PyList [1, 2, 3, 4, 5])
     (Some (XDates [737485, 737486, 737487])) None = Inr sample_wide"
  by (simp add: Series_init_def truthy_start_def Series_fill_def date_range_def y_values_def
      to_datetime_def sample_wide_def upt_conv_Cons)

lemma trim_sample_wide:
  "trim sample_parse sample_isoformat sample_wide None None = Inr sample_wide"
  by (simp add: trim_def start_or_0_def get_index_def get_stop_index_def Series_len_def
      py_slice_def slice_bound_def sample_wide_def Series_init_def truthy_start_def
      Series_fill_def date_range_def y_values_def to_datetime_def upt_conv_Cons)

lemma band_sample_wide:
  "plot_confidence_range fig sample_wide sample_high legend 0 =
     Inl (ValueError ''all input arrays must have the same shape'')"
  by (simp add: plot_confidence_range_def concat_seq_def sample_wide_def sample_high_def)

text \<open>
  C5, as stated, fails. The constructor keeps five values on three consecutive dates, and
  \<^verbatim>\<open>trim()\<close> returns that series as it is. As the lower bound of a band whose upper
  bound has three dates and three values, the two series have different lengths (5 and
  3), the assertion on the numbers of dates passes, and \<^verbatim>\<open>np.stack\<close> raises
  \<^verbatim>\<open>ValueError\<close> on the values: neither a trace nor the \<^verbatim>\<open>AssertionError\<close>. \<^verbatim>\<open>plot\<close> on
  this pair raises the same error.
\<close>

theorem band_unequal_values_not_InvariantError:
  "Series_init sample_parse sample_isoformat (PyList [1, 2, 3, 4, 5])
     (Some (XDates [737485, 737486, 737487])) None = Inr sample_wide
   \<and> trim sample_parse sample_isoformat sample_wide None None = Inr sample_wide
   \<and> trim sample_parse sample_isoformat sample_high None None = Inr sample_high
   \<and> Series_len sample_wide = 5 \<and> Series_len sample_high = 3
   \<and> plot_confidence_range empty_figure sample_wide sample_high None 0 =
       Inl (ValueError ''all input arrays must have the same shape'')
   \<and> plot_confidence_range empty_figure sample_wide sample_high None 0 \<noteq> Inl AssertionError
   \<and> plot sample_parse sample_isoformat [(Coll [sample_wide, sample_high], ''band'')] ''chart''
        default_options =
       Inl (ValueError ''all input arrays must have the same shape'')"
proof -
  have lens: "Series_len sample_wide = 5 \<and> Series_len sample_high = 3"
    by (simp add: Series_len_def sample_wide_def sample_high_def)
  have loop: "plot_loop sample_parse sample_isoformat default_options 0
                [(Coll [sample_wide, sample_high], ''band'')] [] [] =
              Inr ([PlotConfidenceRange sample_wide sample_high (Some ''band'') 0], [])"
    by (simp add: plot_item_def is_Series_def data_len_def data_trim_def data_getitem_def
        py_index_def default_options_def trim_sample_wide trim_sample_high PLOT_COLORS_def)
  have plt: "plot sample_parse sample_isoformat [(Coll [sample_wide, sample_high], ''band'')]
               ''chart'' default_options =
             Inl (ValueError ''all input arrays must have the same shape'')"
    unfolding plot_def loop by (simp add: band_sample_wide)
  show ?thesis
    using sample_wide_built trim_sample_wide trim_sample_high lens plt
    by (simp add: band_sample_wide)
qed

subsection \<open>Buffers of a series\<close>

lemma view_whole: "view_of vs \<lparr>arr_buf = a, arr_start = 0, arr_count = length vs\<rparr> = vs"
  by (simp add: view_of_def)

lemma Series_new_result:
  assumes "Series_new parse isofmt h y x start_date = Inr (obj, h')"
  shows "\<exists>s. Series_init parse isofmt (load_y h y) (map_option (load_x h) x) start_date = Inr s
           \<and> h' = h @ [DateBuf (series_ux s), DateTimeBuf (series_x s), FloatBuf (series_y s)]
           \<and> obj = \<lparr>obj_ux = \<lparr>arr_buf = length h, arr_start = 0, arr_count = length (series_ux s)\<rparr>,
                    obj_x = \<lparr>arr_buf = Suc (length h), arr_start = 0, arr_count = length (series_x s)\<rparr>,
                    obj_y = \<lparr>arr_buf = Suc (Suc (length h)), arr_start = 0,
                             arr_count = length (series_y s)\<rparr>\<rparr>"
  using assms
  by (auto simp: Series_new_def new_array_def buffer_len_def Let_def split: sum.splits)

lemma series_of_new:
  assumes "h' = h @ [DateBuf ux, DateTimeBuf xs, FloatBuf ys] @ rest"
    and "obj = \<lparr>obj_ux = \<lparr>arr_buf = length h, arr_start = 0, arr_count = length ux\<rparr>,
                 obj_x = \<lparr>arr_buf = Suc (length h), arr_start = 0, arr_count = length xs\<rparr>,
                 obj_y = \<lparr>arr_buf = Suc (Suc (length h)), arr_start = 0, arr_count = length ys\<rparr>\<rparr>"
  shows "series_of h' obj = \<lparr>series_ux = ux, series_x = xs, series_y = ys\<rparr>"
  using assms
  by (simp add: series_of_def load_dates_def load_datetimes_def load_floats_def nth_append
      view_whole)

lemma series_of_older_update:
  assumes "a < length h" and "length h \<le> arr_buf (obj_ux obj)" and "length h \<le> arr_buf (obj_x obj)"
    and "length h \<le> arr_buf (obj_y obj)"
  shows "series_of (h'[a := b]) obj = series_of h' obj"
  using assms
  by (simp add: series_of_def load_dates_def load_datetimes_def load_floats_def)

lemma series_of_extend:
  assumes "valid_obj h obj"
  shows "series_of (h @ rest) obj = series_of h obj"
  using assms
  by (simp add: series_of_def valid_obj_def valid_array_def load_dates_def load_datetimes_def
      load_floats_def nth_append)

lemma series_of_newer_update:
  assumes "valid_obj h obj" and "length h \<le> a"
  shows "series_of (h'[a := b]) obj = series_of h' obj"
  using assms
  by (simp add: series_of_def valid_obj_def valid_array_def load_dates_def load_datetimes_def
      load_floats_def)

lemma array_write_cases: "array_write h a i v = h \<or> (\<exists>b. array_write h a i v = h[arr_buf a := b])"
  by (auto simp: array_write_def split: buffer.splits)

lemma slice_bound_le: "slice_bound n i \<le> n"
  by (auto simp: slice_bound_def)

lemma view_slice:
  assumes "arr_start a + arr_count a \<le> length vs"
  shows "view_of vs (slice_view a lo hi) = py_slice (view_of vs a) lo hi"
proof -
  have len: "length (view_of vs a) = arr_count a"
    using assms by (simp add: view_of_def)
  define l where "l = slice_bound (arr_count a) lo"
  define u where "u = slice_bound (arr_count a) hi"
  have l: "l \<le> arr_count a" and u: "u \<le> arr_count a"
    by (simp_all add: l_def u_def slice_bound_le)
  have "take (u - l) (drop l (take (arr_count a) (drop (arr_start a) vs))) =
        take (u - l) (drop (arr_start a + l) vs)"
    using l u by (simp add: drop_take add.commute min_def)
  then show ?thesis
    unfolding py_slice_def slice_view_def Let_def len
    by (simp add: view_of_def l_def u_def)
qed

lemma load_floats_slice:
  assumes "valid_array h a"
  shows "load_floats h (slice_view a lo hi) = py_slice (load_floats h a) lo hi"
proof (cases "h ! arr_buf a")
  case (FloatBuf vs)
  then have "arr_start a + arr_count a \<le> length vs"
    using assms by (simp add: valid_array_def buffer_len_def)
  from view_slice [OF this] FloatBuf show ?thesis
    by (simp add: load_floats_def slice_view_def Let_def)
qed (simp_all add: load_floats_def slice_view_def Let_def py_slice_def)

lemma load_dates_slice:
  assumes "valid_array h a"
  shows "load_dates h (slice_view a lo hi) = py_slice (load_dates h a) lo hi"
proof (cases "h ! arr_buf a")
  case (DateBuf ds)
  then have "arr_start a + arr_count a \<le> length ds"
    using assms by (simp add: valid_array_def buffer_len_def)
  from view_slice [OF this] DateBuf show ?thesis
    by (simp add: load_dates_def slice_view_def Let_def)
qed (simp_all add: load_dates_def slice_view_def Let_def py_slice_def)

lemma trim_obj_simulates:
  assumes "valid_obj h src"
  shows "trim_obj parse isofmt h src start stop =
           (case get_index parse (series_of h src) (start_or_0 start) of
              Inl e \<Rightarrow> Inl e
            | Inr a \<Rightarrow>
               (case get_stop_index parse (series_of h src) stop of
                  Inl e \<Rightarrow> Inl e
                | Inr b \<Rightarrow>
                    Series_new parse isofmt h (YArr (slice_view (obj_y src) a b))
                      (Some (XArr (slice_view (obj_ux src) a b))) None))
       \<and> (\<forall>a b. load_y h (YArr (slice_view (obj_y src) a b)) =
                   NdArray (py_slice (series_y (series_of h src)) a b)
               \<and> load_x h (XArr (slice_view (obj_ux src) a b)) =
                   XDates (py_slice (series_ux (series_of h src)) a b))"
  using assms
  by (simp add: trim_obj_def load_y_def load_x_def series_of_def load_floats_slice
      load_dates_slice valid_obj_def)

lemma Series_new_fresh:
  assumes "Series_new parse isofmt h y x start_date = Inr (obj, h')"
  shows "Series_init parse isofmt (load_y h y) (map_option (load_x h) x) start_date =
           Inr (series_of h' obj)"
    and "take (length h) h' = h"
    and "arr_buf (obj_ux obj) = length h"
    and "arr_buf (obj_x obj) = Suc (length h)"
    and "arr_buf (obj_y obj) = Suc (Suc (length h))"
    and "length h' = length h + 3"
    and "valid_obj h' obj"
proof -
  from Series_new_result [OF assms] obtain s
    where s: "Series_init parse isofmt (load_y h y) (map_option (load_x h) x) start_date = Inr s"
      and h': "h' = h @ [DateBuf (series_ux s), DateTimeBuf (series_x s), FloatBuf (series_y s)]"
      and obj: "obj = \<lparr>obj_ux = \<lparr>arr_buf = length h, arr_start = 0, arr_count = length (series_ux s)\<rparr>,
                    obj_x = \<lparr>arr_buf = Suc (length h), arr_start = 0, arr_count = length (series_x s)\<rparr>,
                    obj_y = \<lparr>arr_buf = Suc (Suc (length h)), arr_start = 0,
                             arr_count = length (series_y s)\<rparr>\<rparr>"
    by blast
  have "series_of h' obj = \<lparr>series_ux = series_ux s, series_x = series_x s, series_y = series_y s\<rparr>"
    by (rule series_of_new [where rest = "[]"]) (simp_all add: h' obj)
  then show "Series_init parse isofmt (load_y h y) (map_option (load_x h) x) start_date =
           Inr (series_of h' obj)"
    using s by simp
  show "take (length h) h' = h" by (simp add: h')
  show "arr_buf (obj_ux obj) = length h" by (simp add: obj)
  show "arr_buf (obj_x obj) = Suc (length h)" by (simp add: obj)
  show "arr_buf (obj_y obj) = Suc (Suc (length h))" by (simp add: obj)
  show "length h' = length h + 3" by (simp add: h')
  show "valid_obj h' obj"
    by (simp add: valid_obj_def valid_array_def h' obj nth_append buffer_len_def)
qed

text \<open>
  C9. The constructor and \<^verbatim>\<open>trim\<close> on the store. A series object built by the
  constructor holds the values the constructor computes, in three buffers that did not
  exist before; no buffer that existed is changed. So replacing any earlier buffer, and in
  particular writing through the caller's array \<^verbatim>\<open>y\<close>, leaves the series as it is.
  \<^verbatim>\<open>trim\<close> of a series object returns a new object holding the trimmed series in
  buffers of its own, none of them a buffer of the original: the original reads the same
  after the call, a write through the values of the result does not change the original,
  and a write through the values of the original does not change the result.
\<close>

theorem series_buffers_not_shared:
  "(Series_new parse isofmt h y x start_date = Inr (obj, h') \<longrightarrow>
      Series_init parse isofmt (load_y h y) (map_option (load_x h) x) start_date =
        Inr (series_of h' obj)
    \<and> take (length h) h' = h
    \<and> length h \<le> arr_buf (obj_ux obj) \<and> length h \<le> arr_buf (obj_x obj)
    \<and> length h \<le> arr_buf (obj_y obj)
    \<and> (\<forall>a b. a < length h \<longrightarrow> series_of (h'[a := b]) obj = series_of h' obj)
    \<and> (\<forall>a i v. y = YArr a \<and> arr_buf a < length h \<longrightarrow>
          arr_buf (obj_y obj) \<noteq> arr_buf a
        \<and> series_of (array_write h' a i v) obj = series_of h' obj))
   \<and> (valid_obj h src \<and> trim_obj parse isofmt h src start stop = Inr (res, h2) \<longrightarrow>
        trim parse isofmt (series_of h src) start stop = Inr (series_of h2 res)
      \<and> take (length h) h2 = h
      \<and> series_of h2 src = series_of h src
      \<and> {arr_buf (obj_ux res), arr_buf (obj_x res), arr_buf (obj_y res)} \<inter>
         {arr_buf (obj_ux src), arr_buf (obj_x src), arr_buf (obj_y src)} = {}
      \<and> (\<forall>i v. series_of (array_write h2 (obj_y res) i v) src = series_of h2 src)
      \<and> (\<forall>i v. series_of (array_write h2 (obj_y src) i v) res = series_of h2 res))"
proof (intro conjI impI)
  assume new: "Series_new parse isofmt h y x start_date = Inr (obj, h')"
  note f = Series_new_fresh [OF new]
  show "Series_init parse isofmt (load_y h y) (map_option (load_x h) x) start_date =
        Inr (series_of h' obj)" by (rule f(1))
  show "take (length h) h' = h" by (rule f(2))
  show "length h \<le> arr_buf (obj_ux obj)" "length h \<le> arr_buf (obj_x obj)"
    "length h \<le> arr_buf (obj_y obj)"
    by (simp_all add: f)
  have older: "series_of (h'[a := b]) obj = series_of h' obj" if "a < length h" for a b
    using that by (intro series_of_older_update [of a h]) (simp_all add: f)
  show "\<forall>a b. a < length h \<longrightarrow> series_of (h'[a := b]) obj = series_of h' obj"
    using older by blast
  show "\<forall>a i v. y = YArr a \<and> arr_buf a < length h \<longrightarrow>
          arr_buf (obj_y obj) \<noteq> arr_buf a
        \<and> series_of (array_write h' a i v) obj = series_of h' obj"
  proof (intro allI impI conjI)
    fix a i v assume a: "y = YArr a \<and> arr_buf a < length h"
    show "arr_buf (obj_y obj) \<noteq> arr_buf a" using a by (simp add: f)
    show "series_of (array_write h' a i v) obj = series_of h' obj"
      using array_write_cases [of h' a i v] older [of "arr_buf a"] a by auto
  qed
next
  assume a: "valid_obj h src \<and> trim_obj parse isofmt h src start stop = Inr (res, h2)"
  then have valid: "valid_obj h src" and tr: "trim_obj parse isofmt h src start stop = Inr (res, h2)"
    by simp_all
  note sim = trim_obj_simulates [OF valid, of parse isofmt start stop]
  from tr sim obtain lo hi
    where lo: "get_index parse (series_of h src) (start_or_0 start) = Inr lo"
      and hi: "get_stop_index parse (series_of h src) stop = Inr hi"
      and new: "Series_new parse isofmt h (YArr (slice_view (obj_y src) lo hi))
                  (Some (XArr (slice_view (obj_ux src) lo hi))) None = Inr (res, h2)"
    by (auto split: sum.splits)
  note f = Series_new_fresh [OF new]
  have loads: "load_y h (YArr (slice_view (obj_y src) lo hi)) =
                 NdArray (py_slice (series_y (series_of h src)) lo hi)"
    "load_x h (XArr (slice_view (obj_ux src) lo hi)) =
                 XDates (py_slice (series_ux (series_of h src)) lo hi)"
    using sim by simp_all
  show "trim parse isofmt (series_of h src) start stop = Inr (series_of h2 res)"
    using f(1) lo hi by (simp add: trim_def loads)
  show "take (length h) h2 = h" by (rule f(2))
  have h2: "h2 = h @ drop (length h) h2"
    using f(2) by (metis append_take_drop_id)
  show same: "series_of h2 src = series_of h src"
    using series_of_extend [OF valid, of "drop (length h) h2"] h2 by simp
  have src_old: "arr_buf (obj_ux src) < length h" "arr_buf (obj_x src) < length h"
    "arr_buf (obj_y src) < length h"
    using valid by (simp_all add: valid_obj_def valid_array_def)
  show "{arr_buf (obj_ux res), arr_buf (obj_x res), arr_buf (obj_y res)} \<inter>
         {arr_buf (obj_ux src), arr_buf (obj_x src), arr_buf (obj_y src)} = {}"
    using src_old by (auto simp: f)
  show "\<forall>i v. series_of (array_write h2 (obj_y res) i v) src = series_of h2 src"
  proof (intro allI)
    fix i v
    have "series_of (h2[arr_buf (obj_y res) := b]) src = series_of h2 src" for b
      using valid by (intro series_of_newer_update [of h]) (simp_all add: f)
    then show "series_of (array_write h2 (obj_y res) i v) src = series_of h2 src"
      using array_write_cases [of h2 "obj_y res" i v] by auto
  qed
  show "\<forall>i v. series_of (array_write h2 (obj_y src) i v) res = series_of h2 res"
  proof (intro allI)
    fix i v
    have "series_of (h2[arr_buf (obj_y src) := b]) res = series_of h2 res" for b
      using src_old by (intro series_of_older_update [of _ h]) (simp_all add: f)
    then show "series_of (array_write h2 (obj_y src) i v) res = series_of h2 res"
      using array_write_cases [of h2 "obj_y src" i v] by auto
  qed
qed

lemma sample_obj_built:
  "Series_new sample_parse sample_isoformat sample_store (YArr sample_array) None
     (Some (SDate 737485)) = Inr (sample_obj, sample_store1)"
  by (simp add: Series_new_def load_y_def load_floats_def view_of_def sample_store_def
      sample_array_def Series_init_def truthy_start_def Series_fill_def date_range_def
      y_values_def to_datetime_def upt_conv_Cons new_array_def buffer_len_def sample_obj_def
      sample_store1_def)

lemma sample_obj_series: "series_of sample_store1 sample_obj = sample_series"
  by (simp add: series_of_def load_dates_def load_datetimes_def load_floats_def view_of_def
      sample_store1_def sample_obj_def sample_series_def)

lemma sample_obj_valid: "valid_obj sample_store1 sample_obj"
  by (simp add: valid_obj_def valid_array_def buffer_len_def sample_store1_def sample_obj_def)

lemma sample_trimmed_built:
  "trim_obj sample_parse sample_isoformat sample_store1 sample_obj (Some (IInt 1)) None =
     Inr (sample_trimmed, sample_store2)"
  unfolding trim_obj_def sample_obj_series
  by (simp add: start_or_0_def get_index_def get_stop_index_def Series_len_def sample_series_def
      Series_new_def load_y_def load_x_def load_floats_def load_dates_def view_of_def
      slice_view_def slice_bound_def sample_obj_def sample_store1_def
      Series_init_def truthy_start_def Series_fill_def date_range_def
      y_values_def to_datetime_def upt_conv_Cons new_array_def buffer_len_def sample_trimmed_def
      sample_store2_def)

theorem series_buffers_not_shared_witness:
  "Series_new sample_parse sample_isoformat sample_store (YArr sample_array) None
     (Some (SDate 737485)) = Inr (sample_obj, sample_store1)
   \<and> load_floats (array_write sample_store1 sample_array 0 99) sample_array = [99, 2, 3]
   \<and> series_of (array_write sample_store1 sample_array 0 99) sample_obj = sample_series
   \<and> valid_obj sample_store1 sample_obj
   \<and> trim_obj sample_parse sample_isoformat sample_store1 sample_obj (Some (IInt 1)) None =
       Inr (sample_trimmed, sample_store2)
   \<and> series_y (series_of sample_store2 sample_trimmed) = [2, 3]
   \<and> load_floats (array_write sample_store2 (obj_y sample_trimmed) 0 50) (obj_y sample_trimmed) =
       [50, 3]
   \<and> series_of (array_write sample_store2 (obj_y sample_trimmed) 0 50) sample_obj = sample_series
   \<and> load_floats (array_write sample_store2 (obj_y sample_obj) 0 70) (obj_y sample_obj) =
       [70, 2, 3]
   \<and> series_y (series_of (array_write sample_store2 (obj_y sample_obj) 0 70) sample_trimmed) =
       [2, 3]"
proof -
  note t1 = series_buffers_not_shared
    [of sample_parse sample_isoformat sample_store "YArr sample_array" None "Some (SDate 737485)"
        sample_obj sample_store1 sample_obj "Some (IInt 1)" None sample_obj sample_store1]
  note t2 = series_buffers_not_shared
    [of sample_parse sample_isoformat sample_store1 "YArr sample_array" None "Some (SDate 737485)"
        sample_obj sample_store1 sample_obj "Some (IInt 1)" None sample_trimmed sample_store2]
  have a0: "arr_buf sample_array < length sample_store"
    by (simp add: sample_array_def sample_store_def)
  have w1: "series_of (array_write sample_store1 sample_array 0 99) sample_obj = sample_series"
    using t1 sample_obj_built a0 sample_obj_series by simp
  have w2: "series_of (array_write sample_store2 (obj_y sample_trimmed) 0 50) sample_obj = sample_series"
    and w3: "series_of (array_write sample_store2 (obj_y sample_obj) 0 70) sample_trimmed =
               series_of sample_store2 sample_trimmed"
    and w4: "series_of sample_store2 sample_obj = sample_series"
    using t2 sample_obj_valid sample_trimmed_built sample_obj_series by simp_all
  have e1: "load_floats (array_write sample_store1 sample_array 0 99) sample_array = [99, 2, 3]"
    by (simp add: array_write_def load_floats_def view_of_def sample_store1_def sample_array_def)
  have e2: "series_y (series_of sample_store2 sample_trimmed) = [2, 3]"
    by (simp add: series_of_def load_floats_def view_of_def sample_store2_def sample_trimmed_def)
  have e3: "load_floats (array_write sample_store2 (obj_y sample_trimmed) 0 50) (obj_y sample_trimmed) =
       [50, 3]"
    by (simp add: array_write_def load_floats_def view_of_def sample_store2_def sample_trimmed_def)
  have e4: "load_floats (array_write sample_store2 (obj_y sample_obj) 0 70) (obj_y sample_obj) =
       [70, 2, 3]"
    by (simp add: array_write_def load_floats_def view_of_def sample_store2_def sample_obj_def)
  show ?thesis
    using sample_obj_built sample_obj_valid sample_trimmed_built w1 w2 w3 e1 e2 e3 e4 by simp
qed

end
